theory Spec2Isabelle
  imports Main "HOL-Library.Word"
begin

section \<open>Fatal checks, unchecked reads, pointers\<close>

text \<open>
  \<^verbatim>\<open>CRASH_COND(c)\<close> aborts the process when \<open>c\<close> holds: the call does not return
  (\<open>Crash\<close>). \<^verbatim>\<open>std::vector::operator[]\<close> is not bounds checked (the source says so at
  \<^verbatim>\<open>get_buffer\<close>): an index at or past \<^verbatim>\<open>size()\<close> reads outside the vector, which
  the model records as \<open>Out_of_bounds\<close> instead of inventing a value.
\<close>

datatype 'a outcome = Crash | Out_of_bounds | Ok 'a

text \<open>A pointer is an address; address 0 is \<^verbatim>\<open>nullptr\<close>.\<close>

type_synonym pointer = nat

definition nullptr :: pointer where
  "nullptr = 0"

section \<open>Buffers, intervals and the State\<close>

text \<open>
  Modelled from the spec: \<^verbatim>\<open>Interval\<close> (\<^verbatim>\<open>util/math/interval.h\<close> is not among the sources),
  "a closed numeric range [min, max]". The type \<open>'f\<close> stands for \<^verbatim>\<open>float\<close>.
\<close>

record 'f Interval =
  min_val :: 'f
  max_val :: 'f

text \<open>\<^verbatim>\<open>struct Buffer\<close>. The field \<^verbatim>\<open>size\<close> is named \<open>size_avail\<close> here.\<close>

record 'f Buffer =
  data :: pointer
  size_avail :: "32 word"
  capacity :: "32 word"
  constant_value :: 'f
  is_constant :: bool
  is_binding :: bool
  local_users_count :: "32 word"

text \<open>\<^verbatim>\<open>class State\<close>: its private members.\<close>

record 'f State =
  ranges :: "'f Interval list"
  buffers :: "'f Buffer list"
  execution_map :: "16 word list"
  debug_execution_map :: "int list"
  execution_map_xzy_start_index :: "32 word"
  buffer_size :: "32 word"
  buffer_capacity :: "32 word"

text \<open>
  \<^verbatim>\<open>State::get_buffer\<close>: the guard compares the address with \<^verbatim>\<open>buffers.size()\<close>, and the
  read is from \<^verbatim>\<open>buffers\<close>.
\<close>

definition get_buffer :: "'f State \<Rightarrow> 16 word \<Rightarrow> 'f Buffer outcome" where
  "get_buffer s address =
     (if unat address \<ge> length (buffers s) then Crash
      else Ok (buffers s ! unat address))"

text \<open>
  \<^verbatim>\<open>State::get_range\<close>: the guard is the same comparison with \<^verbatim>\<open>buffers.size()\<close>, but
  the read is from \<^verbatim>\<open>ranges\<close>, a vector of its own length.
\<close>

definition get_range :: "'f State \<Rightarrow> 16 word \<Rightarrow> 'f Interval outcome" where
  "get_range s address =
     (if unat address \<ge> length (buffers s) then Crash
      else if unat address < length (ranges s) then Ok (ranges s ! unat address)
      else Out_of_bounds)"

text \<open>
  \<^verbatim>\<open>State::clear\<close>. The loop over \<^verbatim>\<open>buffers\<close> calls \<^verbatim>\<open>memfree(b.data)\<close> for each buffer
  whose data is not null and which is not a binding; \<open>free_buffers\<close> is that loop and
  returns the pointers passed to \<^verbatim>\<open>memfree\<close>, in call order.
\<close>

fun free_buffers :: "'f Buffer list \<Rightarrow> pointer list" where
  "free_buffers [] = []"
| "free_buffers (b # bs) =
     (if data b \<noteq> nullptr \<and> \<not> is_binding b then data b # free_buffers bs
      else free_buffers bs)"

definition State_clear :: "'f State \<Rightarrow> 'f State \<times> pointer list" where
  "State_clear s =
     (s\<lparr>buffer_size := 0, buffer_capacity := 0, buffers := [], ranges := []\<rparr>,
      free_buffers (buffers s))"

section \<open>Heap resources and the Program\<close>

text \<open>
  \<^verbatim>\<open>struct HeapResource\<close>: a pointer and the function to delete it with. A function
  pointer is \<open>None\<close> when null; the only deleter the source creates is the lambda of
  \<^verbatim>\<open>add_memdelete_cleanup<T>\<close>, which calls \<^verbatim>\<open>memdelete\<close> on its argument as a \<^verbatim>\<open>T*\<close>
  (one lambda for each type \<^verbatim>\<open>T\<close>, here numbered).
\<close>

datatype deleter_fn = Memdelete_as nat

record HeapResource =
  ptr :: pointer
  deleter :: "deleter_fn option"

text \<open>
  What \<^verbatim>\<open>Program::clear\<close> does to the world outside the Program, in the order it does
  it: a call of a deleter on a pointer, the call of \<^verbatim>\<open>unlock_images()\<close> (declared in the
  header, its body is not among the sources), and the destruction of a
  \<^verbatim>\<open>Ref<Reference>\<close> element of \<^verbatim>\<open>ref_resources\<close>, which gives up its reference.
\<close>

datatype event = Deleter_called deleter_fn pointer | Unlock_images_called | Ref_released pointer

record CompilationResult =
  success :: bool
  node_id :: int
  message :: string

text \<open>\<^verbatim>\<open>CompilationResult()\<close>: the member initialisers of the struct.\<close>

definition CompilationResult_init :: CompilationResult where
  "CompilationResult_init = \<lparr>success = False, node_id = - 1, message = []\<rparr>"

text \<open>\<^verbatim>\<open>struct BufferSpec\<close>; its fields carry the prefix \<open>spec\<close>.\<close>

record 'f BufferSpec =
  spec_address :: "16 word"
  spec_users_count :: "16 word"
  spec_constant_value :: 'f
  spec_is_constant :: bool
  spec_is_binding :: bool

record DependencyGraph_Node =
  first_dependency :: "16 word"
  end_dependency :: "16 word"
  op_address :: "16 word"
  is_output :: bool
  debug_node_id :: int

record DependencyGraph =
  dependencies :: "16 word list"
  nodes :: "DependencyGraph_Node list"

definition DependencyGraph_clear :: "DependencyGraph \<Rightarrow> DependencyGraph" where
  "DependencyGraph_clear g = g\<lparr>dependencies := [], nodes := []\<rparr>"

text \<open>
  \<^verbatim>\<open>ProgramGraph::PortLocation\<close> (\<^verbatim>\<open>program_graph.h\<close> is not among the sources) is only
  a key of \<^verbatim>\<open>output_port_addresses\<close>: a type parameter \<open>'port\<close>.
\<close>

record ('f, 'port) Program =
  operations :: "8 word list"
  dependency_graph :: DependencyGraph
  default_execution_map :: "16 word list"
  heap_resources :: "HeapResource list"
  ref_resources :: "pointer list"
  buffer_specs :: "'f BufferSpec list"
  xzy_start_op_address :: "32 word"
  xzy_start_execution_map_index :: "32 word"
  x_input_address :: int
  y_input_address :: int
  z_input_address :: int
  sdf_output_address :: int
  sdf_output_node_index :: int
  buffer_count :: "32 word"
  output_port_addresses :: "'port \<rightharpoonup> 16 word"
  compilation_result :: CompilationResult

text \<open>
  The loop of \<^verbatim>\<open>Program::clear\<close> over \<^verbatim>\<open>heap_resources\<close>: both \<^verbatim>\<open>CRASH_COND\<close>s, then
  the call \<^verbatim>\<open>r.deleter(r.ptr)\<close>, appended to the events so far.
\<close>

fun release_heap_resources :: "HeapResource list \<Rightarrow> event list \<Rightarrow> event list outcome" where
  "release_heap_resources [] tr = Ok tr"
| "release_heap_resources (r # rs) tr =
     (case deleter r of
        None \<Rightarrow> Crash
      | Some d \<Rightarrow>
          if ptr r = nullptr then Crash
          else release_heap_resources rs (tr @ [Deleter_called d (ptr r)]))"

text \<open>
  \<^verbatim>\<open>Program::clear\<close>, on the events so far. The fields are reset, the heap resources
  released, \<^verbatim>\<open>unlock_images()\<close> called, then \<^verbatim>\<open>ref_resources.clear()\<close> destroys each
  element (front to back in the model).
\<close>

definition Program_clear ::
  "('f, 'port) Program \<Rightarrow> event list \<Rightarrow> (('f, 'port) Program \<times> event list) outcome" where
  "Program_clear p tr =
     (case release_heap_resources (heap_resources p) tr of
        Crash \<Rightarrow> Crash
      | Out_of_bounds \<Rightarrow> Out_of_bounds
      | Ok tr' \<Rightarrow>
          Ok (p\<lparr>operations := [],
                buffer_specs := [],
                xzy_start_execution_map_index := 0,
                xzy_start_op_address := 0,
                default_execution_map := [],
                output_port_addresses := Map.empty,
                dependency_graph := DependencyGraph_clear (dependency_graph p),
                sdf_output_address := - 1,
                x_input_address := - 1,
                y_input_address := - 1,
                z_input_address := - 1,
                sdf_output_node_index := - 1,
                compilation_result := CompilationResult_init,
                heap_resources := [],
                ref_resources := [],
                buffer_count := 0\<rparr>,
              tr' @ [Unlock_images_called] @ map Ref_released (ref_resources p)))"

text \<open>\<^verbatim>\<open>VoxelGraphRuntime::has_output\<close>, on the runtime's \<^verbatim>\<open>_program\<close>.\<close>

definition has_output :: "('f, 'port) Program \<Rightarrow> bool" where
  "has_output p = (sdf_output_address p \<noteq> - 1)"

section \<open>The compile context\<close>

text \<open>
  \<^verbatim>\<open>class CompileContext\<close>. \<^verbatim>\<open>_program\<close>, \<^verbatim>\<open>_heap_resources\<close> and \<^verbatim>\<open>_params\<close> are references
  to vectors of the caller; the model keeps the vectors in the context, and the caller
  reads them back. The node type and \<^verbatim>\<open>Variant\<close> are not among the sources: type
  parameters. \<^verbatim>\<open>size_t\<close> is \<open>nat\<close>.
\<close>

record ('node, 'var) CompileContext =
  cc_node :: 'node
  cc_offset :: nat
  cc_program :: "8 word list"
  cc_heap_resources :: "HeapResource list"
  cc_params :: "'var list"
  cc_error_message :: string
  cc_has_error :: bool

text \<open>The constructor: \<^verbatim>\<open>_offset(program.size())\<close>.\<close>

definition CompileContext_init ::
  "'node \<Rightarrow> 8 word list \<Rightarrow> HeapResource list \<Rightarrow> 'var list \<Rightarrow> ('node, 'var) CompileContext" where
  "CompileContext_init node program hrs params =
     \<lparr>cc_node = node, cc_offset = length program, cc_program = program,
      cc_heap_resources = hrs, cc_params = params,
      cc_error_message = [], cc_has_error = False\<rparr>"

text \<open>
  \<^verbatim>\<open>get_param\<close>: the guard is \<^verbatim>\<open>i > _params.size()\<close>; the read \<^verbatim>\<open>_params[i]\<close> is unchecked.
\<close>

definition get_param :: "('node, 'var) CompileContext \<Rightarrow> nat \<Rightarrow> 'var outcome" where
  "get_param c i =
     (if i > length (cc_params c) then Crash
      else if i < length (cc_params c) then Ok (cc_params c ! i)
      else Out_of_bounds)"

text \<open>
  \<^verbatim>\<open>set_params<T>\<close>. The argument is the object representation of the \<^verbatim>\<open>T\<close> passed, a
  list of \<^verbatim>\<open>sizeof(T)\<close> bytes. The guard, then \<^verbatim>\<open>resize\<close> (new bytes are zero), then the
  assignment through \<^verbatim>\<open>&_program[_offset]\<close>, which overwrites \<^verbatim>\<open>sizeof(T)\<close> bytes from
  \<^verbatim>\<open>_offset\<close> on.
\<close>

definition set_params ::
  "('node, 'var) CompileContext \<Rightarrow> 8 word list \<Rightarrow> ('node, 'var) CompileContext outcome" where
  "set_params c params =
     (if cc_offset c \<noteq> length (cc_program c) then Crash
      else
        let resized = cc_program c @ replicate (length params) 0
        in Ok (c\<lparr>cc_program :=
                    take (cc_offset c) resized @ params @
                    drop (cc_offset c + length params) resized\<rparr>))"

text \<open>
  \<^verbatim>\<open>add_memdelete_cleanup<T>\<close>: pushes the pointer with the deleter lambda of \<^verbatim>\<open>T\<close>. It
  checks nothing about the pointer and calls nothing.
\<close>

definition add_memdelete_cleanup ::
  "('node, 'var) CompileContext \<Rightarrow> nat \<Rightarrow> pointer \<Rightarrow> ('node, 'var) CompileContext" where
  "add_memdelete_cleanup c t p =
     c\<lparr>cc_heap_resources := cc_heap_resources c @ [\<lparr>ptr = p, deleter = Some (Memdelete_as t)\<rparr>]\<rparr>"

definition make_error :: "('node, 'var) CompileContext \<Rightarrow> string \<Rightarrow> ('node, 'var) CompileContext" where
  "make_error c msg = c\<lparr>cc_error_message := msg, cc_has_error := True\<rparr>"

definition has_error :: "('node, 'var) CompileContext \<Rightarrow> bool" where
  "has_error c = cc_has_error c"

definition get_error_message :: "('node, 'var) CompileContext \<Rightarrow> string" where
  "get_error_message c = cc_error_message c"

section \<open>The string-names singleton\<close>

text \<open>
  \<^verbatim>\<open>VoxelStringNames\<close>: the members its constructor sets, with the strings they are
  created from.
\<close>

record VoxelStringNames =
  emerge_block :: string
  immerge_block :: string
  u_transition_mask :: string

definition VoxelStringNames_init :: VoxelStringNames where
  "VoxelStringNames_init =
     \<lparr>emerge_block = ''emerge_block'', immerge_block = ''immerge_block'',
      u_transition_mask = ''u_transition_mask''\<rparr>"

text \<open>
  The global pointer \<^verbatim>\<open>g_singleton\<close> and the \<^verbatim>\<open>VoxelStringNames\<close> objects alive on the
  heap, each at its address. A static pointer starts null.
\<close>

record Globals =
  g_singleton :: pointer
  instances :: "(pointer \<times> VoxelStringNames) list"

definition Globals_init :: Globals where
  "Globals_init = \<lparr>g_singleton = nullptr, instances = []\<rparr>"

text \<open>
  \<^verbatim>\<open>create_singleton\<close>. The second argument is the address \<^verbatim>\<open>memnew\<close> returns for the new
  object.
\<close>

definition create_singleton :: "Globals \<Rightarrow> pointer \<Rightarrow> Globals outcome" where
  "create_singleton g fresh =
     (if g_singleton g \<noteq> nullptr then Crash
      else Ok (g\<lparr>instances := instances g @ [(fresh, VoxelStringNames_init)],
                 g_singleton := fresh\<rparr>))"

text \<open>\<^verbatim>\<open>destroy_singleton\<close>: \<^verbatim>\<open>memdelete\<close> ends the object at the address.\<close>

definition destroy_singleton :: "Globals \<Rightarrow> Globals outcome" where
  "destroy_singleton g =
     (if g_singleton g = nullptr then Crash
      else Ok (g\<lparr>instances := filter (\<lambda>e. fst e \<noteq> g_singleton g) (instances g),
                 g_singleton := nullptr\<rparr>))"

text \<open>
  At most one instance: the objects alive are none while the pointer is null, and
  otherwise the single object the pointer holds.
\<close>

definition singleton_invariant :: "Globals \<Rightarrow> bool" where
  "singleton_invariant g =
     (map fst (instances g) = (if g_singleton g = nullptr then [] else [g_singleton g]))"

section \<open>Process contexts\<close>

text \<open>Sequencing of calls that may abort or read out of bounds.\<close>

fun and_then :: "'a outcome \<Rightarrow> ('a \<Rightarrow> 'b outcome) \<Rightarrow> 'b outcome" where
  "and_then Crash f = Crash"
| "and_then Out_of_bounds f = Out_of_bounds"
| "and_then (Ok x) f = f x"

text \<open>
  Modelled from the spec: \<^verbatim>\<open>ArraySlice<T>::operator[]\<close> (\<^verbatim>\<open>util/array_slice.h\<close> is not among
  the sources; the spec has "flat, fixed-capacity numeric arrays ... indexed by small
  integer addresses"): the element at an index inside the slice; an index outside it is
  \<open>Out_of_bounds\<close>.
\<close>

definition slice_at :: "'a list \<Rightarrow> nat \<Rightarrow> 'a outcome" where
  "slice_at xs i = (if i < length xs then Ok (xs ! i) else Out_of_bounds)"

text \<open>
  \<^verbatim>\<open>_ProcessContext::get_input_address\<close> and \<^verbatim>\<open>get_output_address\<close>: the 16-bit address
  at an index of \<^verbatim>\<open>_inputs\<close>, of \<^verbatim>\<open>_outputs\<close>, widened to \<^verbatim>\<open>uint32_t\<close>.
\<close>

definition get_input_address :: "16 word list \<Rightarrow> nat \<Rightarrow> nat outcome" where
  "get_input_address inputs i = and_then (slice_at inputs i) (\<lambda>a. Ok (unat a))"

definition get_output_address :: "16 word list \<Rightarrow> nat \<Rightarrow> nat outcome" where
  "get_output_address outputs i = and_then (slice_at outputs i) (\<lambda>a. Ok (unat a))"

text \<open>\<^verbatim>\<open>class RangeAnalysisContext\<close>, with the members of its base \<^verbatim>\<open>_ProcessContext\<close>.\<close>

record 'f RangeAnalysisContext =
  ra_inputs :: "16 word list"
  ra_outputs :: "16 word list"
  ra_params :: "8 word list"
  ra_ranges :: "'f Interval list"
  ra_buffers :: "'f Buffer list"

definition RA_get_input :: "'f RangeAnalysisContext \<Rightarrow> nat \<Rightarrow> 'f Interval outcome" where
  "RA_get_input c i =
     and_then (get_input_address (ra_inputs c) i) (\<lambda>address. slice_at (ra_ranges c) address)"

definition RA_set_output ::
  "'f RangeAnalysisContext \<Rightarrow> nat \<Rightarrow> 'f Interval \<Rightarrow> 'f RangeAnalysisContext outcome" where
  "RA_set_output c i r =
     and_then (get_output_address (ra_outputs c) i) (\<lambda>address.
       if address < length (ra_ranges c)
       then Ok (c\<lparr>ra_ranges := (ra_ranges c)[address := r]\<rparr>)
       else Out_of_bounds)"

text \<open>\<^verbatim>\<open>ignore_input\<close>: \<^verbatim>\<open>--b.local_users_count\<close> on an \<^verbatim>\<open>unsigned int\<close>, which wraps.\<close>

definition RA_ignore_input ::
  "'f RangeAnalysisContext \<Rightarrow> nat \<Rightarrow> 'f RangeAnalysisContext outcome" where
  "RA_ignore_input c i =
     and_then (get_input_address (ra_inputs c) i) (\<lambda>address.
       if address < length (ra_buffers c)
       then Ok (c\<lparr>ra_buffers := (ra_buffers c)
                  [address := (ra_buffers c ! address)
                     \<lparr>local_users_count := local_users_count (ra_buffers c ! address) - 1\<rparr>]\<rparr>)
       else Out_of_bounds)"

text \<open>\<^verbatim>\<open>class ProcessBufferContext\<close>, with the members of its base.\<close>

record 'f ProcessBufferContext =
  pb_inputs :: "16 word list"
  pb_outputs :: "16 word list"
  pb_params :: "8 word list"
  pb_buffers :: "'f Buffer list"

definition PB_get_input :: "'f ProcessBufferContext \<Rightarrow> nat \<Rightarrow> 'f Buffer outcome" where
  "PB_get_input c i =
     and_then (get_input_address (pb_inputs c) i) (\<lambda>address. slice_at (pb_buffers c) address)"

definition PB_get_output :: "'f ProcessBufferContext \<Rightarrow> nat \<Rightarrow> 'f Buffer outcome" where
  "PB_get_output c i =
     and_then (get_output_address (pb_outputs c) i) (\<lambda>address. slice_at (pb_buffers c) address)"

section \<open>Compilation, as the spec describes it\<close>

text \<open>
  Modelled from the spec: a node of the input graph (\<^verbatim>\<open>program_graph.h\<close> is not among the
  sources). The graph exposes "per node, its operation kind, ordered input/output ports,
  literal parameter values" and "a deterministic topological traversal order": a graph
  is the list of its nodes in that order, each with its identifier, its kind and its
  parameters.
\<close>

record 'var graph_node =
  gn_id :: int
  gn_kind :: nat
  gn_params :: "'var list"

text \<open>
  The compile routine registered for a kind (\<^verbatim>\<open>CompileFunc\<close> in the header): from the
  context it is given to the context it leaves, unless it aborts.
\<close>

type_synonym 'var compile_routines =
  "nat \<Rightarrow> ('var graph_node, 'var) CompileContext \<Rightarrow> ('var graph_node, 'var) CompileContext outcome"

text \<open>
  Modelled from the spec: the loop of \<^verbatim>\<open>compile\<close> over the nodes (\<^verbatim>\<open>compile\<close> and
  \<^verbatim>\<open>_compile\<close> are declared in the header; their bodies are not among the sources).
  "For each graph node, in a topologically valid order": the compiler allocates the
  output addresses and emits the instruction (\<open>begin_node\<close>, a parameter: the layout is
  not given), then invokes "the operation's registered compile routine with a context
  object"; when the routine has made an error, "any per-node compile error aborts
  compilation ... and returns the failing node id and message"; otherwise the compiler
  records what the spec lists for the node (\<open>end_node\<close>, a parameter) and goes on.
\<close>

fun compile_nodes ::
  "'var compile_routines \<Rightarrow>
   ('var graph_node \<Rightarrow> ('f, 'port) Program \<Rightarrow> ('f, 'port) Program) \<Rightarrow>
   ('var graph_node \<Rightarrow> ('f, 'port) Program \<Rightarrow> ('f, 'port) Program) \<Rightarrow>
   'var graph_node list \<Rightarrow> ('f, 'port) Program \<Rightarrow>
   (CompilationResult \<times> ('f, 'port) Program) outcome" where
  "compile_nodes routines begin_node end_node [] p =
     Ok (\<lparr>success = True, node_id = - 1, message = []\<rparr>, p)"
| "compile_nodes routines begin_node end_node (n # ns) p =
     (let p1 = begin_node n p in
      and_then
        (routines (gn_kind n)
           (CompileContext_init n (operations p1) (heap_resources p1) (gn_params n)))
        (\<lambda>c.
           let p2 = p1\<lparr>operations := cc_program c, heap_resources := cc_heap_resources c\<rparr> in
           if has_error c
           then Ok (\<lparr>success = False, node_id = gn_id n, message = get_error_message c\<rparr>, p2)
           else compile_nodes routines begin_node end_node ns (end_node n p2)))"

text \<open>
  Modelled from the spec: \<^verbatim>\<open>compile\<close>. The Program is "replaced wholesale by a new
  compile call", so the old one is cleared first. After the nodes, \<open>finish\<close> (a
  parameter) stands for the checks and tables that follow the loop (the input and output
  bindings, "compiling with zero or multiple declared outputs ... is a compile error",
  the dependency graph, the partition); it may fail too. A failure "leaves the Program
  cleared, and returns the failing node id and message"; a success leaves the Program
  populated, with the result recorded in it.
\<close>

definition compile ::
  "'var compile_routines \<Rightarrow>
   ('var graph_node \<Rightarrow> ('f, 'port) Program \<Rightarrow> ('f, 'port) Program) \<Rightarrow>
   ('var graph_node \<Rightarrow> ('f, 'port) Program \<Rightarrow> ('f, 'port) Program) \<Rightarrow>
   (('f, 'port) Program \<Rightarrow> CompilationResult \<times> ('f, 'port) Program) \<Rightarrow>
   'var graph_node list \<Rightarrow> ('f, 'port) Program \<Rightarrow> event list \<Rightarrow>
   (CompilationResult \<times> ('f, 'port) Program \<times> event list) outcome" where
  "compile routines begin_node end_node finish graph p tr =
     and_then (Program_clear p tr) (\<lambda>(p0, tr0).
     and_then (compile_nodes routines begin_node end_node graph p0) (\<lambda>(res, p1).
       let (res', p2) = (if success res then finish p1 else (res, p1)) in
       if success res' then Ok (res', p2\<lparr>compilation_result := res'\<rparr>, tr0)
       else and_then (Program_clear p2 tr0) (\<lambda>(p3, tr3). Ok (res', p3, tr3))))"

text \<open>The state \<^verbatim>\<open>Program::clear\<close> leaves every field of a Program in.\<close>

definition Program_cleared :: "('f, 'port) Program \<Rightarrow> bool" where
  "Program_cleared p \<longleftrightarrow>
     operations p = [] \<and> buffer_specs p = [] \<and>
     xzy_start_execution_map_index p = 0 \<and> xzy_start_op_address p = 0 \<and>
     default_execution_map p = [] \<and> output_port_addresses p = Map.empty \<and>
     dependencies (dependency_graph p) = [] \<and> nodes (dependency_graph p) = [] \<and>
     sdf_output_address p = - 1 \<and> x_input_address p = - 1 \<and>
     y_input_address p = - 1 \<and> z_input_address p = - 1 \<and>
     sdf_output_node_index p = - 1 \<and>
     compilation_result p = CompilationResult_init \<and>
     heap_resources p = [] \<and> ref_resources p = [] \<and> buffer_count p = 0"

section \<open>Execution and range analysis, as the spec describes them\<close>

text \<open>
  The header declares \<^verbatim>\<open>generate_single\<close> and \<^verbatim>\<open>analyze_range\<close>; their bodies are not
  among the sources. The definitions of this section follow sections 3, 4.3, 4.4 and 6 of
  the spec, on the contexts of the header.
\<close>

text \<open>
  Modelled from the spec: an Instruction, decoded (the layout of the stream is not among
  the sources). "An opaque parameter blob plus explicit lists of input and output buffer
  addresses, tagged with an operation-kind identifier".
\<close>

record instruction =
  op_kind :: nat
  op_inputs :: "16 word list"
  op_outputs :: "16 word list"
  op_params :: "8 word list"

text \<open>
  The decoder is a parameter: the instruction found at an offset of the byte stream, if
  there is one.
\<close>

type_synonym fetch = "8 word list \<Rightarrow> 16 word \<Rightarrow> instruction option"

text \<open>
  Modelled from the spec: an entry of the operation catalog (the catalog is not among the
  sources), "registered by kind", with the numbers of its input and output ports. Its
  execute routine "reads input buffers, writes output buffers": \<open>execute_fn\<close> gives,
  from the parameter blob and the values read from the inputs, the value written to each
  output. Its range routine "reads input intervals, writes output interval, may mark
  inputs as ignorable": \<open>range_fn\<close> gives the interval set for each output, and
  \<open>ignored_fn\<close> the inputs it passes to \<^verbatim>\<open>ignore_input\<close>.
\<close>

record 'f operation =
  n_inputs :: nat
  n_outputs :: nat
  execute_fn :: "8 word list \<Rightarrow> 'f list \<Rightarrow> nat \<Rightarrow> 'f"
  range_fn :: "8 word list \<Rightarrow> 'f Interval list \<Rightarrow> nat \<Rightarrow> 'f Interval"
  ignored_fn :: "8 word list \<Rightarrow> 'f Interval list \<Rightarrow> nat list"

text \<open>
  Modelled from the spec: membership in an Interval (\<^verbatim>\<open>util/math/interval.h\<close> is not among
  the sources), "a closed numeric range [min, max]".
\<close>

definition interval_contains :: "('f :: ord) Interval \<Rightarrow> 'f \<Rightarrow> bool" where
  "interval_contains r v \<longleftrightarrow> min_val r \<le> v \<and> v \<le> max_val r"

text \<open>
  Modelled from the spec: a routine "reads input buffers", "reads input intervals": the
  reads of its inputs, one index after the other.
\<close>

fun collect :: "(nat \<Rightarrow> 'a outcome) \<Rightarrow> nat list \<Rightarrow> 'a list outcome" where
  "collect f [] = Ok []"
| "collect f (i # rest) = and_then (f i) (\<lambda>x. and_then (collect f rest) (\<lambda>xs. Ok (x # xs)))"

text \<open>
  Modelled from the spec: the use of "the addresses reserved for the X/Y/Z inputs and the
  scalar-field output" as indices. The Program holds them in an \<^verbatim>\<open>int\<close>, -1 when unset.
\<close>

definition slice_at_int :: "'a list \<Rightarrow> int \<Rightarrow> 'a outcome" where
  "slice_at_int xs a = (if 0 \<le> a then slice_at xs (nat a) else Out_of_bounds)"

definition slice_update_int :: "'a list \<Rightarrow> int \<Rightarrow> 'a \<Rightarrow> 'a list outcome" where
  "slice_update_int xs a v =
     (if 0 \<le> a \<and> nat a < length xs then Ok (xs[nat a := v]) else Out_of_bounds)"

subsection \<open>Range analysis\<close>

text \<open>
  Modelled from the spec: the calls a range routine makes on its context, \<^verbatim>\<open>set_output\<close>
  for each of its outputs and \<^verbatim>\<open>ignore_input\<close> for the inputs it marks as ignorable.
\<close>

fun set_outputs ::
  "(nat \<Rightarrow> 'f Interval) \<Rightarrow> nat list \<Rightarrow> 'f RangeAnalysisContext \<Rightarrow>
   'f RangeAnalysisContext outcome" where
  "set_outputs r [] c = Ok c"
| "set_outputs r (j # js) c = and_then (RA_set_output c j (r j)) (set_outputs r js)"

fun ignore_inputs ::
  "nat list \<Rightarrow> 'f RangeAnalysisContext \<Rightarrow> 'f RangeAnalysisContext outcome" where
  "ignore_inputs [] c = Ok c"
| "ignore_inputs (i # rest) c = and_then (RA_ignore_input c i) (ignore_inputs rest)"

text \<open>
  Modelled from the spec: one instruction's range-analysis routine run "over a context
  carrying per-address Intervals instead of value arrays". The routine reads its inputs
  with \<^verbatim>\<open>get_input\<close>, sets its outputs with \<^verbatim>\<open>set_output\<close> and may call \<^verbatim>\<open>ignore_input\<close>.
\<close>

definition analyze_instruction ::
  "(nat \<Rightarrow> 'f operation) \<Rightarrow> instruction \<Rightarrow> 'f Interval list \<times> 'f Buffer list \<Rightarrow>
   ('f Interval list \<times> 'f Buffer list) outcome" where
  "analyze_instruction catalog ins s =
     (let c = \<lparr>ra_inputs = op_inputs ins, ra_outputs = op_outputs ins,
                ra_params = op_params ins, ra_ranges = fst s, ra_buffers = snd s\<rparr>;
          routine = catalog (op_kind ins)
      in and_then (collect (RA_get_input c) [0..<length (op_inputs ins)]) (\<lambda>ivs.
         and_then (set_outputs (range_fn routine (op_params ins) ivs)
                     [0..<length (op_outputs ins)] c) (\<lambda>c1.
         and_then (ignore_inputs (ignored_fn routine (op_params ins) ivs) c1) (\<lambda>c2.
         Ok (ra_ranges c2, ra_buffers c2)))))"

text \<open>
  Modelled from the spec: the analysis of the instructions of an execution order, each
  decoded from the stream at its offset.
\<close>

fun analyze_ops ::
  "fetch \<Rightarrow> (nat \<Rightarrow> 'f operation) \<Rightarrow> 8 word list \<Rightarrow> 16 word list \<Rightarrow>
   'f Interval list \<times> 'f Buffer list \<Rightarrow> ('f Interval list \<times> 'f Buffer list) outcome" where
  "analyze_ops fetch catalog ops [] s = Ok s"
| "analyze_ops fetch catalog ops (a # rest) s =
     (case fetch ops a of
        None \<Rightarrow> Out_of_bounds
      | Some ins \<Rightarrow>
          and_then (analyze_instruction catalog ins s) (analyze_ops fetch catalog ops rest))"

text \<open>
  Modelled from the spec: \<^verbatim>\<open>analyze_range(state, min_corner, max_corner)\<close> "executes every
  instruction's range-analysis routine ..., starting from the X/Y/Z address intervals
  derived from the queried axis-aligned box, and returns the interval computed at the
  output address". The instructions are taken in the default execution order, which is
  the order they are stored in. The corners are integer vectors; \<open>to_float\<close> is the
  conversion of a corner's coordinate to \<^verbatim>\<open>float\<close>.
\<close>

definition analyze_range ::
  "fetch \<Rightarrow> (nat \<Rightarrow> 'f operation) \<Rightarrow> (int \<Rightarrow> 'f) \<Rightarrow> ('f, 'port) Program \<Rightarrow> 'f State \<Rightarrow>
   int \<times> int \<times> int \<Rightarrow> int \<times> int \<times> int \<Rightarrow> ('f Interval \<times> 'f State) outcome" where
  "analyze_range fetch catalog to_float p st min_pos max_pos =
     (case (min_pos, max_pos) of ((min_x, min_y, min_z), (max_x, max_y, max_z)) \<Rightarrow>
        and_then (slice_update_int (ranges st) (x_input_address p)
                    \<lparr>min_val = to_float min_x, max_val = to_float max_x\<rparr>) (\<lambda>r1.
        and_then (slice_update_int r1 (y_input_address p)
                    \<lparr>min_val = to_float min_y, max_val = to_float max_y\<rparr>) (\<lambda>r2.
        and_then (slice_update_int r2 (z_input_address p)
                    \<lparr>min_val = to_float min_z, max_val = to_float max_z\<rparr>) (\<lambda>r3.
        and_then (analyze_ops fetch catalog (operations p) (default_execution_map p)
                    (r3, buffers st)) (\<lambda>s.
        and_then (slice_at_int (fst s) (sdf_output_address p)) (\<lambda>out.
        Ok (out, st\<lparr>ranges := fst s, buffers := snd s\<rparr>)))))))"

subsection \<open>Execution at one position\<close>

text \<open>
  Modelled from the spec: the reads and writes of an execute routine.
  \<^verbatim>\<open>generate_single\<close> runs on buffers that are single-element views, so the memory the
  buffers point at is kept as one value for each buffer address: the first element of
  that buffer's array. A constant buffer has no array, "the constant value is read
  directly": a read of a buffer gives its constant when it is one and its first element
  otherwise; a write to a constant buffer has nowhere to go.
\<close>

definition read_input :: "'f ProcessBufferContext \<Rightarrow> 'f list \<Rightarrow> nat \<Rightarrow> 'f outcome" where
  "read_input c vals i =
     and_then (PB_get_input c i) (\<lambda>b.
       if is_constant b then Ok (constant_value b)
       else and_then (get_input_address (pb_inputs c) i) (\<lambda>address. slice_at vals address))"

fun write_outputs ::
  "(nat \<Rightarrow> 'f) \<Rightarrow> nat list \<Rightarrow> 'f ProcessBufferContext \<Rightarrow> 'f list \<Rightarrow> 'f list outcome" where
  "write_outputs v [] c vals = Ok vals"
| "write_outputs v (j # js) c vals =
     and_then (PB_get_output c j) (\<lambda>b.
       if is_constant b then Out_of_bounds
       else and_then (get_output_address (pb_outputs c) j) (\<lambda>address.
         if address < length vals then write_outputs v js c (vals[address := v j])
         else Out_of_bounds))"

text \<open>
  Modelled from the spec: one instruction "dispatching to its registered execute routine
  against a context exposing only its declared input/output buffer addresses".
\<close>

definition execute_instruction ::
  "(nat \<Rightarrow> 'f operation) \<Rightarrow> instruction \<Rightarrow> 'f Buffer list \<Rightarrow> 'f list \<Rightarrow> 'f list outcome" where
  "execute_instruction catalog ins bs vals =
     (let c = \<lparr>pb_inputs = op_inputs ins, pb_outputs = op_outputs ins,
                pb_params = op_params ins, pb_buffers = bs\<rparr>
      in and_then (collect (read_input c vals) [0..<length (op_inputs ins)]) (\<lambda>vs.
         write_outputs (execute_fn (catalog (op_kind ins)) (op_params ins) vs)
           [0..<length (op_outputs ins)] c vals))"

text \<open>
  Modelled from the spec: the execution of "the currently active instruction order",
  each instruction decoded from the stream at its offset.
\<close>

fun execute_ops ::
  "fetch \<Rightarrow> (nat \<Rightarrow> 'f operation) \<Rightarrow> 8 word list \<Rightarrow> 16 word list \<Rightarrow> 'f Buffer list \<Rightarrow>
   'f list \<Rightarrow> 'f list outcome" where
  "execute_ops fetch catalog ops [] bs vals = Ok vals"
| "execute_ops fetch catalog ops (a # rest) bs vals =
     (case fetch ops a of
        None \<Rightarrow> Out_of_bounds
      | Some ins \<Rightarrow>
          and_then (execute_instruction catalog ins bs vals)
            (execute_ops fetch catalog ops rest bs))"

text \<open>
  Modelled from the spec: \<^verbatim>\<open>generate_single(state, position)\<close> "binds the X/Y/Z buffers to
  single-element views of the position, then executes the currently active instruction
  order (default or execution-map-narrowed) ..., and finally reads the output buffer's
  first element". The flag of the header chooses the order: the State's execution map,
  or the Program's default one.
\<close>

definition generate_single ::
  "fetch \<Rightarrow> (nat \<Rightarrow> 'f operation) \<Rightarrow> ('f, 'port) Program \<Rightarrow> 'f State \<Rightarrow> 'f list \<Rightarrow>
   'f \<times> 'f \<times> 'f \<Rightarrow> bool \<Rightarrow> ('f \<times> 'f list) outcome" where
  "generate_single fetch catalog p st vals position use_execution_map =
     (case position of (pos_x, pos_y, pos_z) \<Rightarrow>
        and_then (slice_update_int vals (x_input_address p) pos_x) (\<lambda>v1.
        and_then (slice_update_int v1 (y_input_address p) pos_y) (\<lambda>v2.
        and_then (slice_update_int v2 (z_input_address p) pos_z) (\<lambda>v3.
        and_then (execute_ops fetch catalog (operations p)
                    (if use_execution_map then execution_map st else default_execution_map p)
                    (buffers st) v3) (\<lambda>v4.
        and_then (slice_at_int (buffers st) (sdf_output_address p)) (\<lambda>b.
        and_then (if is_constant b then Ok (constant_value b)
                  else slice_at_int v4 (sdf_output_address p)) (\<lambda>out.
        Ok (out, v4))))))))"

subsection \<open>Programs the analysis is claimed for\<close>

text \<open>
  A range routine is a sound over-approximation: "the true value set for any input in
  the given intervals must lie within the returned interval". The inputs it marks as
  ignorable are inputs it has.
\<close>

definition sound_operation :: "('f :: ord) operation \<Rightarrow> bool" where
  "sound_operation opn \<longleftrightarrow>
     (\<forall>params ivs vs.
        length ivs = n_inputs opn \<longrightarrow> list_all2 interval_contains ivs vs \<longrightarrow>
        (\<forall>j < n_outputs opn.
           interval_contains (range_fn opn params ivs j) (execute_fn opn params vs j)) \<and>
        (\<forall>i \<in> set (ignored_fn opn params ivs). i < n_inputs opn))"

text \<open>
  The instruction order is "dependency-respecting (data producers before consumers)":
  every instruction is decodable, has the ports of its kind, reads only addresses that
  hold a value (an input binding, a constant, or an output of an earlier instruction),
  and writes to buffers of the State that are not constants. The result is the list of
  addresses that hold a value after the last instruction.
\<close>

fun defined_after ::
  "fetch \<Rightarrow> (nat \<Rightarrow> 'f operation) \<Rightarrow> 8 word list \<Rightarrow> 'f Buffer list \<Rightarrow> 16 word list \<Rightarrow>
   nat list \<Rightarrow> nat list option" where
  "defined_after fetch catalog ops bs [] defined = Some defined"
| "defined_after fetch catalog ops bs (a # rest) defined =
     (case fetch ops a of
        None \<Rightarrow> None
      | Some ins \<Rightarrow>
          if length (op_inputs ins) = n_inputs (catalog (op_kind ins)) \<and>
             length (op_outputs ins) = n_outputs (catalog (op_kind ins)) \<and>
             list_all (\<lambda>i. unat i \<in> set defined) (op_inputs ins) \<and>
             list_all (\<lambda>oa. unat oa < length bs \<and> \<not> is_constant (bs ! unat oa)) (op_outputs ins)
          then defined_after fetch catalog ops bs rest (map unat (op_outputs ins) @ defined)
          else None)"

text \<open>
  A compiled Program with a State prepared for it: one range, one buffer and one value
  for each address; the X, Y, Z and output addresses are set and are addresses of the
  State; the inputs are not constants; the default order is dependency-respecting and
  gives the output address a value; and the range kept for a constant buffer contains
  its constant.
\<close>

definition valid_address :: "nat \<Rightarrow> int \<Rightarrow> bool" where
  "valid_address n a \<longleftrightarrow> 0 \<le> a \<and> nat a < n"

definition well_formed ::
  "fetch \<Rightarrow> (nat \<Rightarrow> ('f :: ord) operation) \<Rightarrow> ('f, 'port) Program \<Rightarrow> 'f State \<Rightarrow> 'f list \<Rightarrow> bool" where
  "well_formed fetch catalog p st vals \<longleftrightarrow>
     length (ranges st) = length (buffers st) \<and>
     length vals = length (buffers st) \<and>
     valid_address (length (buffers st)) (x_input_address p) \<and>
     valid_address (length (buffers st)) (y_input_address p) \<and>
     valid_address (length (buffers st)) (z_input_address p) \<and>
     valid_address (length (buffers st)) (sdf_output_address p) \<and>
     \<not> is_constant (buffers st ! nat (x_input_address p)) \<and>
     \<not> is_constant (buffers st ! nat (y_input_address p)) \<and>
     \<not> is_constant (buffers st ! nat (z_input_address p)) \<and>
     list_all (\<lambda>a. is_constant (buffers st ! a) \<longrightarrow>
                  interval_contains (ranges st ! a) (constant_value (buffers st ! a)))
       [0..<length (buffers st)] \<and>
     (case defined_after fetch catalog (operations p) (buffers st) (default_execution_map p)
             ([nat (x_input_address p), nat (y_input_address p), nat (z_input_address p)] @
              filter (\<lambda>a. is_constant (buffers st ! a)) [0..<length (buffers st)]) of
        None \<Rightarrow> False
      | Some defined \<Rightarrow> nat (sdf_output_address p) \<in> set defined)"

text \<open>The position lies in the box, coordinate by coordinate.\<close>

definition position_in_box ::
  "(int \<Rightarrow> 'f :: ord) \<Rightarrow> int \<times> int \<times> int \<Rightarrow> int \<times> int \<times> int \<Rightarrow> 'f \<times> 'f \<times> 'f \<Rightarrow> bool" where
  "position_in_box to_float min_pos max_pos position \<longleftrightarrow>
     (case (min_pos, max_pos, position) of
        ((min_x, min_y, min_z), (max_x, max_y, max_z), (pos_x, pos_y, pos_z)) \<Rightarrow>
          to_float min_x \<le> pos_x \<and> pos_x \<le> to_float max_x \<and>
          to_float min_y \<le> pos_y \<and> pos_y \<le> to_float max_y \<and>
          to_float min_z \<le> pos_z \<and> pos_z \<le> to_float max_z)"

text \<open>
  The value a read of the buffer at an address gives: its constant, or the first element
  of its array.
\<close>

definition buffer_value :: "'f Buffer list \<Rightarrow> 'f list \<Rightarrow> nat \<Rightarrow> 'f" where
  "buffer_value bs vals a = (if is_constant (bs ! a) then constant_value (bs ! a) else vals ! a)"

text \<open>
  The relation the analysis keeps with an execution: at every address that holds a
  value, the range holds the value read there.
\<close>

definition contained ::
  "('f :: ord) Buffer list \<Rightarrow> nat list \<Rightarrow> 'f Interval list \<Rightarrow> 'f list \<Rightarrow> bool" where
  "contained bs defined rs vals \<longleftrightarrow>
     length rs = length bs \<and> length vals = length bs \<and>
     (\<forall>a \<in> set defined. a < length bs \<and> interval_contains (rs ! a) (buffer_value bs vals a))"

text \<open>
  Two lists of buffers that agree on which buffers are constants and on their constants.
\<close>

definition same_constants :: "'f Buffer list \<Rightarrow> 'f Buffer list \<Rightarrow> bool" where
  "same_constants bs bs' \<longleftrightarrow>
     map (\<lambda>b. (is_constant b, constant_value b)) bs =
     map (\<lambda>b. (is_constant b, constant_value b)) bs'"

section \<open>Example values\<close>

text \<open>
  A State with an owned buffer, a binding and a compile-time constant, and a Program that
  holds two heap resources and one reference; the closed instances below evaluate the
  theorems on them.
\<close>

definition example_buffers :: "int Buffer list" where
  "example_buffers =
     [\<lparr>data = 10, size_avail = 4, capacity = 16, constant_value = 0,
       is_constant = False, is_binding = False, local_users_count = 1\<rparr>,
      \<lparr>data = 20, size_avail = 4, capacity = 4, constant_value = 0,
       is_constant = False, is_binding = True, local_users_count = 1\<rparr>,
      \<lparr>data = nullptr, size_avail = 4, capacity = 0, constant_value = 5,
       is_constant = True, is_binding = False, local_users_count = 2\<rparr>]"

definition example_state :: "int State" where
  "example_state =
     \<lparr>ranges = [\<lparr>min_val = 1, max_val = 2\<rparr>, \<lparr>min_val = 0, max_val = 9\<rparr>,
                \<lparr>min_val = 5, max_val = 5\<rparr>],
      buffers = example_buffers,
      execution_map = [], debug_execution_map = [],
      execution_map_xzy_start_index = 0, buffer_size = 4, buffer_capacity = 16\<rparr>"

definition example_program :: "(int, nat) Program" where
  "example_program =
     \<lparr>operations = [1, 2, 3],
      dependency_graph = \<lparr>dependencies = [0], nodes = []\<rparr>,
      default_execution_map = [0],
      heap_resources = [\<lparr>ptr = 100, deleter = Some (Memdelete_as 1)\<rparr>,
                        \<lparr>ptr = 200, deleter = Some (Memdelete_as 2)\<rparr>],
      ref_resources = [300],
      buffer_specs = [],
      xzy_start_op_address = 0,
      xzy_start_execution_map_index = 0,
      x_input_address = 0,
      y_input_address = 1,
      z_input_address = 2,
      sdf_output_address = 3,
      sdf_output_node_index = 1,
      buffer_count = 4,
      output_port_addresses = Map.empty,
      compilation_result = \<lparr>success = True, node_id = - 1, message = []\<rparr>\<rparr>"

text \<open>The example State after its vector of ranges was emptied, its buffers kept.\<close>

definition example_state_without_ranges :: "int State" where
  "example_state_without_ranges = example_state\<lparr>ranges := []\<rparr>"

text \<open>
  A catalog of two compile routines (kind 0 registers a resource and sets one byte of
  parameters, every other kind reports an error), stand-ins for the compiler's own steps,
  and a graph of three nodes whose second node is of a failing kind.
\<close>

definition example_routines :: "nat compile_routines" where
  "example_routines kind c =
     (if kind = 0 then set_params (add_memdelete_cleanup c 1 500) [1]
      else Ok (make_error c ''bad parameter''))"

definition example_begin_node :: "nat graph_node \<Rightarrow> (int, nat) Program \<Rightarrow> (int, nat) Program" where
  "example_begin_node n p = p\<lparr>operations := operations p @ [of_nat (gn_kind n)]\<rparr>"

definition example_end_node :: "nat graph_node \<Rightarrow> (int, nat) Program \<Rightarrow> (int, nat) Program" where
  "example_end_node n p = p\<lparr>sdf_output_address := 3, buffer_count := buffer_count p + 1\<rparr>"

definition example_finish :: "(int, nat) Program \<Rightarrow> CompilationResult \<times> (int, nat) Program" where
  "example_finish p = (\<lparr>success = True, node_id = - 1, message = []\<rparr>, p)"

definition example_graph :: "nat graph_node list" where
  "example_graph =
     [\<lparr>gn_id = 11, gn_kind = 0, gn_params = []\<rparr>,
      \<lparr>gn_id = 12, gn_kind = 1, gn_params = []\<rparr>,
      \<lparr>gn_id = 13, gn_kind = 0, gn_params = []\<rparr>]"

definition example_cleared_program :: "(int, nat) Program" where
  "example_cleared_program =
     \<lparr>operations = [],
      dependency_graph = \<lparr>dependencies = [], nodes = []\<rparr>,
      default_execution_map = [],
      heap_resources = [],
      ref_resources = [],
      buffer_specs = [],
      xzy_start_op_address = 0,
      xzy_start_execution_map_index = 0,
      x_input_address = - 1,
      y_input_address = - 1,
      z_input_address = - 1,
      sdf_output_address = - 1,
      sdf_output_node_index = - 1,
      buffer_count = 0,
      output_port_addresses = Map.empty,
      compilation_result = CompilationResult_init\<rparr>"

text \<open>
  The spec's example, "a graph computing output = X + Y", followed by the addition of a
  compile-time constant: the first addition reads the addresses of X and Y and writes
  the output address, the second reads the output address and the constant buffer and
  writes the output address again. The State has the three input buffers, the output
  buffer and the constant 5.
\<close>

definition add_operation :: "int operation" where
  "add_operation =
     \<lparr>n_inputs = 2, n_outputs = 1,
      execute_fn = (\<lambda>params vs j. vs ! 0 + vs ! 1),
      range_fn = (\<lambda>params ivs j. \<lparr>min_val = min_val (ivs ! 0) + min_val (ivs ! 1),
                                   max_val = max_val (ivs ! 0) + max_val (ivs ! 1)\<rparr>),
      ignored_fn = (\<lambda>params ivs. [])\<rparr>"

definition example_catalog :: "nat \<Rightarrow> int operation" where
  "example_catalog kind = add_operation"

definition example_fetch :: fetch where
  "example_fetch ops a =
     (if a = 0 then Some \<lparr>op_kind = 0, op_inputs = [0, 1], op_outputs = [3], op_params = []\<rparr>
      else if a = 6 then Some \<lparr>op_kind = 0, op_inputs = [3, 4], op_outputs = [3], op_params = []\<rparr>
      else None)"

definition sum_program :: "(int, nat) Program" where
  "sum_program =
     example_program\<lparr>heap_resources := [], ref_resources := [],
                     default_execution_map := [0, 6], buffer_count := 5\<rparr>"

definition sum_state :: "int State" where
  "sum_state =
     \<lparr>ranges = replicate 4 \<lparr>min_val = 0, max_val = 0\<rparr> @ [\<lparr>min_val = 5, max_val = 5\<rparr>],
      buffers = replicate 4 (example_buffers ! 0) @ [example_buffers ! 2],
      execution_map = [], debug_execution_map = [],
      execution_map_xzy_start_index = 0, buffer_size = 1, buffer_capacity = 16\<rparr>"

section \<open>Bounds checks of the State accessors\<close>

text \<open>
  C4 fails for \<^verbatim>\<open>get_range\<close>. Its guard compares the address with \<^verbatim>\<open>buffers.size()\<close>, as
  the guard of \<^verbatim>\<open>get_buffer\<close> does, but the vector it then reads is \<^verbatim>\<open>ranges\<close>: the bounds
  check its comment announces is made on a vector other than the one read. The State
  below holds three buffers and no range. Address 0 is below the number of buffers, so
  the guard lets it pass, and the read of \<^verbatim>\<open>ranges[0]\<close> is outside the vector: the call
  neither aborts nor returns an interval stored in the State.
\<close>

theorem get_range_reads_outside_ranges:
  "unat (0 :: 16 word) < length (buffers example_state_without_ranges) \<and>
   get_range example_state_without_ranges 0 = Out_of_bounds \<and>
   get_range example_state_without_ranges 0 \<noteq> Crash \<and>
   get_range example_state_without_ranges 0
     \<noteq> Ok (ranges example_state_without_ranges ! unat (0 :: 16 word))"
  by (simp add: get_range_def example_state_without_ranges_def example_state_def
      example_buffers_def)

text \<open>
  The same on every State: an address at or past the number of ranges and below the
  number of buffers passes the guard and is read outside \<^verbatim>\<open>ranges\<close>.
\<close>

lemma get_range_between_lengths:
  "length (ranges s) \<le> unat address \<Longrightarrow> unat address < length (buffers s) \<Longrightarrow>
   get_range s address = Out_of_bounds"
  by (simp add: get_range_def)

text \<open>
  The rest of C4 holds. \<^verbatim>\<open>get_buffer\<close> aborts at or past the number of buffers and
  otherwise returns the buffer stored at the address, on every State; \<^verbatim>\<open>get_range\<close>
  aborts at or past the number of buffers on every State, and returns the interval
  stored at the address whenever the State holds one there.
\<close>

lemma get_buffer_on_every_state:
  "get_buffer s address =
     (if unat address \<ge> length (buffers s) then Crash else Ok (buffers s ! unat address))"
  by (simp add: get_buffer_def)

lemma get_range_aborts_past_buffers:
  "length (buffers s) \<le> unat address \<Longrightarrow> get_range s address = Crash"
  by (simp add: get_range_def)

lemma get_range_returns_stored:
  "unat address < length (buffers s) \<Longrightarrow> unat address < length (ranges s) \<Longrightarrow>
   get_range s address = Ok (ranges s ! unat address)"
  by (simp add: get_range_def)

section \<open>Clearing a State\<close>

lemma free_buffers_filter:
  "free_buffers bs = map data (filter (\<lambda>b. data b \<noteq> nullptr \<and> \<not> is_binding b) bs)"
  by (induction bs) simp_all

text \<open>
  C7. \<^verbatim>\<open>State::clear\<close> calls \<^verbatim>\<open>memfree\<close> on the data of exactly the buffers that are not
  bindings and have data, once for each and in order. No call is made for a binding:
  the memory a binding points at is passed to \<^verbatim>\<open>memfree\<close> only if a buffer that is not
  a binding holds the same pointer. Afterwards the State holds no buffers and no ranges,
  and its buffer size and capacity are zero.
\<close>

theorem State_clear_frees_owned_only:
  "snd (State_clear s) =
     map data (filter (\<lambda>b. data b \<noteq> nullptr \<and> \<not> is_binding b) (buffers s)) \<and>
   (\<forall>b \<in> set (buffers s). is_binding b \<longrightarrow>
      (\<forall>own \<in> set (buffers s). \<not> is_binding own \<longrightarrow> data own \<noteq> data b) \<longrightarrow>
      data b \<notin> set (snd (State_clear s))) \<and>
   buffers (fst (State_clear s)) = [] \<and> ranges (fst (State_clear s)) = [] \<and>
   buffer_size (fst (State_clear s)) = 0 \<and> buffer_capacity (fst (State_clear s)) = 0"
  by (auto simp: State_clear_def free_buffers_filter)

theorem State_clear_frees_owned_only_witness:
  "snd (State_clear example_state) = [10] \<and>
   is_binding (example_buffers ! 1) \<and> data (example_buffers ! 1) = 20 \<and>
   20 \<notin> set (snd (State_clear example_state)) \<and>
   buffers (fst (State_clear example_state)) = [] \<and>
   ranges (fst (State_clear example_state)) = []"
  using State_clear_frees_owned_only [of example_state]
  by (simp add: example_state_def example_buffers_def nullptr_def)

section \<open>The compile context\<close>

text \<open>
  C9 fails at the index equal to the number of parameters: the guard \<^verbatim>\<open>i > size\<close> lets it
  pass and \<^verbatim>\<open>_params[i]\<close> reads one element past the end, where the claim says the call
  aborts.
\<close>

theorem get_param_at_size_reads_past_end:
  "get_param c (length (cc_params c)) = Out_of_bounds"
  by (simp add: get_param_def)

lemma get_param_valid:
  "i < length (cc_params c) \<Longrightarrow> get_param c i = Ok (cc_params c ! i)"
  by (simp add: get_param_def)

lemma get_param_beyond:
  "length (cc_params c) < i \<Longrightarrow> get_param c i = Crash"
  by (simp add: get_param_def)

text \<open>
  C5. On a context as its constructor leaves it, the first \<^verbatim>\<open>set_params\<close> returns, and
  the program stream is then the old stream followed by the parameter blob, which
  starts at the recorded offset. Any further \<^verbatim>\<open>set_params\<close> on a context with that
  offset and that stream aborts. A C++ object has at least one byte, so the blob is not
  empty.
\<close>

theorem set_params_only_once:
  assumes "params \<noteq> []"
  shows "\<exists>c'. set_params (CompileContext_init node program hrs ps) params = Ok c' \<and>
           cc_program c' = program @ params \<and>
           cc_offset c' = length program \<and>
           drop (cc_offset c') (cc_program c') = params \<and>
           (\<forall>c2. cc_offset c2 = cc_offset c' \<longrightarrow> cc_program c2 = cc_program c' \<longrightarrow>
                 set_params c2 again = Crash)"
  using assms by (simp add: set_params_def CompileContext_init_def Let_def)

theorem set_params_only_once_witness:
  "[1, 2 :: 8 word] \<noteq> [] \<and>
   (\<exists>c'. set_params (CompileContext_init (0::nat) [7, 8, 9] [] ([]::nat list)) [1, 2] = Ok c' \<and>
         cc_program c' = [7, 8, 9, 1, 2] \<and> set_params c' [3] = Crash)"
  using set_params_only_once [of "[1, 2]" "0::nat" "[7, 8, 9]" "[]" "[]::nat list" "[3]"]
  by auto

section \<open>Clearing a Program\<close>

lemma release_heap_resources_valid:
  "\<forall>r \<in> set rs. deleter r \<noteq> None \<and> ptr r \<noteq> nullptr \<Longrightarrow>
   release_heap_resources rs tr =
     Ok (tr @ map (\<lambda>r. Deleter_called (the (deleter r)) (ptr r)) rs)"
  by (induction rs arbitrary: tr) (auto split: option.splits)

lemma release_heap_resources_invalid:
  "\<exists>r \<in> set rs. deleter r = None \<or> ptr r = nullptr \<Longrightarrow>
   release_heap_resources rs tr = Crash"
  by (induction rs arbitrary: tr) (auto split: option.splits)

text \<open>
  C6. When every registered heap resource has a deleter and a pointer that are not null
  (what both \<^verbatim>\<open>CRASH_COND\<close>s of the loop require), \<^verbatim>\<open>Program::clear\<close> returns; the events
  it adds to those before it are the call of each resource's deleter on its pointer,
  once for each resource in the order of registration, then the call of
  \<^verbatim>\<open>unlock_images()\<close>, then the release of each reference of \<^verbatim>\<open>ref_resources\<close>. The
  cleared Program holds no heap resource and no reference, and clearing it again calls
  no deleter: it only calls \<^verbatim>\<open>unlock_images()\<close>. Registration itself releases nothing:
  \<^verbatim>\<open>add_memdelete_cleanup\<close> only appends the pointer, with a deleter that is not null, to
  the list.
\<close>

theorem Program_clear_releases_once:
  assumes "\<forall>r \<in> set (heap_resources p). deleter r \<noteq> None \<and> ptr r \<noteq> nullptr"
  shows "\<exists>p'. Program_clear p tr =
             Ok (p', tr @ map (\<lambda>r. Deleter_called (the (deleter r)) (ptr r)) (heap_resources p)
                      @ [Unlock_images_called] @ map Ref_released (ref_resources p)) \<and>
           heap_resources p' = [] \<and> ref_resources p' = [] \<and>
           Program_clear p' later = Ok (p', later @ [Unlock_images_called]) \<and>
           cc_heap_resources (add_memdelete_cleanup c t q) =
             cc_heap_resources c @ [\<lparr>ptr = q, deleter = Some (Memdelete_as t)\<rparr>]"
  using release_heap_resources_valid [OF assms, of tr]
  by (simp add: Program_clear_def DependencyGraph_clear_def add_memdelete_cleanup_def)

theorem Program_clear_releases_once_witness:
  "list_all (\<lambda>r. deleter r \<noteq> None \<and> ptr r \<noteq> nullptr) (heap_resources example_program) \<and>
   (\<exists>p'. Program_clear example_program [] =
            Ok (p', [Deleter_called (Memdelete_as 1) 100, Deleter_called (Memdelete_as 2) 200,
                     Unlock_images_called, Ref_released 300]) \<and>
          Program_clear p' [] = Ok (p', [Unlock_images_called])) \<and>
   cc_heap_resources
     (add_memdelete_cleanup (CompileContext_init (0::nat) [] [] ([]::nat list)) 1 100)
     = [\<lparr>ptr = 100, deleter = Some (Memdelete_as 1)\<rparr>]"
  using Program_clear_releases_once [of example_program "[]" "[]"
      "CompileContext_init (0::nat) [] [] ([]::nat list)" 1 100]
  by (auto simp: example_program_def nullptr_def CompileContext_init_def)

lemma Program_clear_null_resource:
  "\<exists>r \<in> set (heap_resources p). deleter r = None \<or> ptr r = nullptr \<Longrightarrow>
   Program_clear p tr = Crash"
  by (simp add: Program_clear_def release_heap_resources_invalid)

section \<open>The singleton's lifecycle\<close>

lemma singleton_invariant_init: "singleton_invariant Globals_init"
  by (simp add: singleton_invariant_def Globals_init_def)

text \<open>
  C10. In a state with at most one instance (the invariant), and with \<^verbatim>\<open>memnew\<close>
  returning an address that is not null: \<^verbatim>\<open>create_singleton\<close> aborts when the pointer is
  set, and otherwise sets it to the new object, keeps the invariant, and a
  \<^verbatim>\<open>destroy_singleton\<close> right after it gives back the state before;
  \<^verbatim>\<open>destroy_singleton\<close> aborts when the pointer is null, and otherwise ends the instance,
  leaves the pointer null and keeps the invariant.
\<close>

theorem singleton_lifecycle:
  assumes "singleton_invariant g" and "fresh \<noteq> nullptr"
  shows "(g_singleton g \<noteq> nullptr \<longrightarrow> create_singleton g fresh = Crash) \<and>
         (g_singleton g = nullptr \<longrightarrow>
            (\<exists>g'. create_singleton g fresh = Ok g' \<and> g_singleton g' \<noteq> nullptr \<and>
                  singleton_invariant g' \<and> destroy_singleton g' = Ok g)) \<and>
         (g_singleton g = nullptr \<longrightarrow> destroy_singleton g = Crash) \<and>
         (g_singleton g \<noteq> nullptr \<longrightarrow>
            (\<exists>g'. destroy_singleton g = Ok g' \<and> g_singleton g' = nullptr \<and>
                  instances g' = [] \<and> singleton_invariant g')) \<and>
         length (instances g) \<le> 1"
  using assms
  apply (simp add: singleton_invariant_def create_singleton_def destroy_singleton_def)
  apply (cases g)
  apply (auto simp: filter_empty_conv split: if_splits)
  done

theorem singleton_lifecycle_witness:
  "singleton_invariant Globals_init \<and> (42::nat) \<noteq> nullptr \<and>
   (\<exists>g'. create_singleton Globals_init 42 = Ok g' \<and> g_singleton g' = 42 \<and>
         create_singleton g' 43 = Crash \<and>
         destroy_singleton g' = Ok Globals_init) \<and>
   destroy_singleton Globals_init = Crash"
  using singleton_lifecycle [of Globals_init 42]
  by (simp add: singleton_invariant_def Globals_init_def nullptr_def create_singleton_def)

section \<open>A failed compilation leaves the Program cleared\<close>

lemma compile_nodes_append:
  "compile_nodes routines bn en pre p = Ok (r, p1) \<Longrightarrow> success r \<Longrightarrow>
   compile_nodes routines bn en (pre @ rest) p = compile_nodes routines bn en rest p1"
proof (induction pre arbitrary: p)
  case Nil
  then show ?case by simp
next
  case (Cons n ns)
  show ?case
  proof (cases "routines (gn_kind n)
           (CompileContext_init n (operations (bn n p)) (heap_resources (bn n p)) (gn_params n))")
    case Crash
    with Cons.prems show ?thesis by (simp add: Let_def)
  next
    case Out_of_bounds
    with Cons.prems show ?thesis by (simp add: Let_def)
  next
    case (Ok c)
    with Cons.prems Cons.IH show ?thesis
      by (auto simp: Let_def split: if_splits)
  qed
qed

lemma Program_clear_cleared:
  "Program_clear p tr = Ok (p', tr') \<Longrightarrow> Program_cleared p'"
  by (auto simp: Program_clear_def Program_cleared_def DependencyGraph_clear_def
      split: outcome.splits)

lemma Program_cleared_no_output:
  "Program_cleared p \<Longrightarrow> \<not> has_output p"
  by (simp add: Program_cleared_def has_output_def)

text \<open>
  C3 (on the model of \<^verbatim>\<open>compile\<close> written from the spec). Let the nodes before \<open>n\<close>
  compile without error, let the routine of \<open>n\<close> report an error, and let no heap resource
  registered so far be null. Then \<^verbatim>\<open>compile\<close> returns, whatever nodes follow \<open>n\<close>, the
  result that fails with the id of \<open>n\<close> and the routine's message, and the Program is
  left as \<^verbatim>\<open>Program::clear\<close> leaves it: the SDF output address is -1, \<^verbatim>\<open>has_output()\<close> is
  false, and the recorded compilation result is not a success.
\<close>

theorem compile_error_clears_program:
  assumes old: "Program_clear p tr = Ok (p0, tr0)"
    and before: "compile_nodes routines bn en pre p0 = Ok (r, p1)" "success r"
    and failing: "routines (gn_kind n)
        (CompileContext_init n (operations (bn n p1)) (heap_resources (bn n p1)) (gn_params n))
        = Ok c" "has_error c"
    and valid: "\<forall>h \<in> set (cc_heap_resources c). deleter h \<noteq> None \<and> ptr h \<noteq> nullptr"
  shows "\<exists>p' tr'. compile routines bn en fin (pre @ n # post) p tr =
             Ok (\<lparr>success = False, node_id = gn_id n, message = get_error_message c\<rparr>, p', tr') \<and>
           Program_cleared p' \<and> sdf_output_address p' = - 1 \<and> \<not> has_output p' \<and>
           \<not> success (compilation_result p')"
proof -
  let ?p2 = "(bn n p1)\<lparr>operations := cc_program c, heap_resources := cc_heap_resources c\<rparr>"
  let ?res = "\<lparr>success = False, node_id = gn_id n, message = get_error_message c\<rparr>"
  have nodes: "compile_nodes routines bn en (pre @ n # post) p0 = Ok (?res, ?p2)"
    using compile_nodes_append [OF before, of "n # post"] failing by (simp add: Let_def)
  have "\<forall>h \<in> set (heap_resources ?p2). deleter h \<noteq> None \<and> ptr h \<noteq> nullptr"
    using valid by simp
  from release_heap_resources_valid [OF this, of tr0]
  obtain p3 tr3 where cl: "Program_clear ?p2 tr0 = Ok (p3, tr3)"
    by (simp add: Program_clear_def)
  have "compile routines bn en fin (pre @ n # post) p tr = Ok (?res, p3, tr3)"
    using old nodes cl by (simp add: compile_def)
  moreover have c3: "Program_cleared p3"
    using cl by (rule Program_clear_cleared)
  moreover have "sdf_output_address p3 = - 1" "\<not> success (compilation_result p3)"
    using c3 by (simp_all add: Program_cleared_def CompilationResult_init_def)
  moreover have "\<not> has_output p3"
    using c3 by (rule Program_cleared_no_output)
  ultimately show ?thesis by blast
qed

theorem compile_error_clears_program_witness:
  "\<exists>p' tr'. compile example_routines example_begin_node example_end_node example_finish
       example_graph example_cleared_program [] =
       Ok (\<lparr>success = False, node_id = 12, message = ''bad parameter''\<rparr>, p', tr') \<and>
     sdf_output_address p' = - 1 \<and> \<not> has_output p'"
proof -
  let ?n1 = "\<lparr>gn_id = 11, gn_kind = 0, gn_params = []::nat list\<rparr>"
  let ?n2 = "\<lparr>gn_id = 12, gn_kind = 1, gn_params = []::nat list\<rparr>"
  let ?n3 = "\<lparr>gn_id = 13, gn_kind = 0, gn_params = []::nat list\<rparr>"
  let ?p1 = "example_end_node ?n1
      ((example_begin_node ?n1 example_cleared_program)
         \<lparr>operations := [0, 1], heap_resources := [\<lparr>ptr = 500, deleter = Some (Memdelete_as 1)\<rparr>]\<rparr>)"
  let ?c = "make_error (CompileContext_init ?n2 (operations (example_begin_node ?n2 ?p1))
      (heap_resources (example_begin_node ?n2 ?p1)) (gn_params ?n2)) ''bad parameter''"
  have old: "Program_clear example_cleared_program [] = Ok (example_cleared_program, [Unlock_images_called])"
    by (simp add: Program_clear_def example_cleared_program_def DependencyGraph_clear_def)
  have before: "compile_nodes example_routines example_begin_node example_end_node [?n1]
      example_cleared_program = Ok (\<lparr>success = True, node_id = - 1, message = []\<rparr>, ?p1)"
    by (simp add: example_routines_def example_begin_node_def example_cleared_program_def
        set_params_def add_memdelete_cleanup_def CompileContext_init_def has_error_def Let_def)
  have ok: "success \<lparr>success = True, node_id = - 1, message = []\<rparr>"
    by simp
  have failing: "example_routines (gn_kind ?n2)
      (CompileContext_init ?n2 (operations (example_begin_node ?n2 ?p1))
        (heap_resources (example_begin_node ?n2 ?p1)) (gn_params ?n2)) = Ok ?c"
    by (simp add: example_routines_def)
  have err: "has_error ?c"
    by (simp add: has_error_def make_error_def)
  have valid: "\<forall>h \<in> set (cc_heap_resources ?c). deleter h \<noteq> None \<and> ptr h \<noteq> nullptr"
    by (simp add: make_error_def CompileContext_init_def example_begin_node_def
        example_end_node_def nullptr_def)
  from compile_error_clears_program [OF old before ok failing err valid, of example_finish "[?n3]"]
  show ?thesis
    by (auto simp: example_graph_def make_error_def get_error_message_def)
qed

text \<open>
  Whatever makes the compilation fail (a node's routine or a check after the nodes, such
  as a missing output binding), a failure that is returned leaves the Program cleared.
\<close>

lemma compile_failure_cleared:
  assumes "compile routines bn en fin graph p tr = Ok (res, p', tr')" and "\<not> success res"
  shows "Program_cleared p' \<and> \<not> has_output p'"
proof -
  from assms(1) obtain p0 tr0 where old: "Program_clear p tr = Ok (p0, tr0)"
    by (cases "Program_clear p tr") (auto simp: compile_def)
  with assms(1) obtain r1 p1 where nodes: "compile_nodes routines bn en graph p0 = Ok (r1, p1)"
    by (cases "compile_nodes routines bn en graph p0") (auto simp: compile_def)
  obtain r2 p2 where fin: "(if success r1 then fin p1 else (r1, p1)) = (r2, p2)"
    by (cases "if success r1 then fin p1 else (r1, p1)")
  show ?thesis
  proof (cases "success r2")
    case True
    with assms old nodes fin show ?thesis
      by (simp add: compile_def)
  next
    case False
    with assms(1) old nodes fin have "and_then (Program_clear p2 tr0) (\<lambda>(p3, tr3). Ok (r2, p3, tr3))
        = Ok (res, p', tr')"
      by (simp add: compile_def)
    then have "Program_clear p2 tr0 = Ok (p', tr')"
      by (cases "Program_clear p2 tr0") auto
    then have "Program_cleared p'"
      by (rule Program_clear_cleared)
    then show ?thesis
      by (simp add: Program_cleared_no_output)
  qed
qed

section \<open>Soundness of the range analysis\<close>

lemma collect_Ok:
  "(\<And>i. i \<in> set js \<Longrightarrow> f i = Ok (g i)) \<Longrightarrow> collect f js = Ok (map g js)"
  by (induction js) simp_all

lemma RA_get_input_Ok:
  "i < length (ra_inputs c) \<Longrightarrow> unat (ra_inputs c ! i) < length (ra_ranges c) \<Longrightarrow>
   RA_get_input c i = Ok (ra_ranges c ! unat (ra_inputs c ! i))"
  by (simp add: RA_get_input_def get_input_address_def slice_at_def)

lemma read_input_Ok:
  "i < length (pb_inputs c) \<Longrightarrow> unat (pb_inputs c ! i) < length (pb_buffers c) \<Longrightarrow>
   unat (pb_inputs c ! i) < length vals \<Longrightarrow>
   read_input c vals i = Ok (buffer_value (pb_buffers c) vals (unat (pb_inputs c ! i)))"
  by (simp add: read_input_def PB_get_input_def get_input_address_def slice_at_def
      buffer_value_def)

lemma set_outputs_Ok:
  "\<forall>j \<in> set js. j < length (ra_outputs c) \<and> unat (ra_outputs c ! j) < length (ra_ranges c) \<Longrightarrow>
   set_outputs r js c =
     Ok (c\<lparr>ra_ranges := foldl (\<lambda>rs j. rs[unat (ra_outputs c ! j) := r j]) (ra_ranges c) js\<rparr>)"
proof (induction js arbitrary: c)
  case Nil
  then show ?case by simp
next
  case (Cons j js)
  let ?c1 = "c\<lparr>ra_ranges := (ra_ranges c)[unat (ra_outputs c ! j) := r j]\<rparr>"
  have first: "RA_set_output c j (r j) = Ok ?c1"
    using Cons.prems by (simp add: RA_set_output_def get_output_address_def slice_at_def)
  have "\<forall>k \<in> set js. k < length (ra_outputs ?c1) \<and>
          unat (ra_outputs ?c1 ! k) < length (ra_ranges ?c1)"
    using Cons.prems by simp
  from Cons.IH [OF this] first show ?case by simp
qed

lemma ignore_inputs_Ok:
  "\<forall>i \<in> set js. i < length (ra_inputs c) \<and> unat (ra_inputs c ! i) < length (ra_buffers c) \<Longrightarrow>
   \<exists>c'. ignore_inputs js c = Ok c' \<and> ra_ranges c' = ra_ranges c \<and>
        length (ra_buffers c') = length (ra_buffers c)"
proof (induction js arbitrary: c)
  case Nil
  then show ?case by simp
next
  case (Cons i js)
  let ?a = "unat (ra_inputs c ! i)"
  let ?c1 = "c\<lparr>ra_buffers := (ra_buffers c)
      [?a := (ra_buffers c ! ?a)\<lparr>local_users_count := local_users_count (ra_buffers c ! ?a) - 1\<rparr>]\<rparr>"
  have first: "RA_ignore_input c i = Ok ?c1"
    using Cons.prems by (simp add: RA_ignore_input_def get_input_address_def slice_at_def)
  have "\<forall>k \<in> set js. k < length (ra_inputs ?c1) \<and>
          unat (ra_inputs ?c1 ! k) < length (ra_buffers ?c1)"
    using Cons.prems by simp
  from Cons.IH [OF this] first show ?case by simp
qed

lemma write_outputs_Ok:
  "\<forall>j \<in> set js. j < length (pb_outputs c) \<and> unat (pb_outputs c ! j) < length (pb_buffers c) \<and>
      \<not> is_constant (pb_buffers c ! unat (pb_outputs c ! j)) \<and>
      unat (pb_outputs c ! j) < length vals \<Longrightarrow>
   write_outputs v js c vals =
     Ok (foldl (\<lambda>vs j. vs[unat (pb_outputs c ! j) := v j]) vals js)"
proof (induction js arbitrary: vals)
  case Nil
  then show ?case by simp
next
  case (Cons j js)
  have "\<forall>k \<in> set js. k < length (pb_outputs c) \<and> unat (pb_outputs c ! k) < length (pb_buffers c) \<and>
      \<not> is_constant (pb_buffers c ! unat (pb_outputs c ! k)) \<and>
      unat (pb_outputs c ! k) < length (vals[unat (pb_outputs c ! j) := v j])"
    using Cons.prems by simp
  from Cons.IH [OF this] Cons.prems show ?case
    by (simp add: PB_get_output_def get_output_address_def slice_at_def)
qed

lemma length_foldl_update:
  "length (foldl (\<lambda>xs j. xs[f j := g j]) xs js) = length xs"
  by (induction js arbitrary: xs) simp_all

lemma foldl_updates_together:
  "length rs = length vals \<Longrightarrow> \<forall>j \<in> set js. f j < length rs \<Longrightarrow> a < length rs \<Longrightarrow>
   (a \<notin> f ` set js \<longrightarrow>
      foldl (\<lambda>xs j. xs[f j := r j]) rs js ! a = rs ! a \<and>
      foldl (\<lambda>xs j. xs[f j := v j]) vals js ! a = vals ! a) \<and>
   (a \<in> f ` set js \<longrightarrow>
      (\<exists>j \<in> set js. foldl (\<lambda>xs j. xs[f j := r j]) rs js ! a = r j \<and>
                    foldl (\<lambda>xs j. xs[f j := v j]) vals js ! a = v j))"
proof (induction js arbitrary: rs vals)
  case Nil
  then show ?case by simp
next
  case (Cons j js)
  let ?rs1 = "rs[f j := r j]" and ?vals1 = "vals[f j := v j]"
  have ih: "(a \<notin> f ` set js \<longrightarrow>
      foldl (\<lambda>xs j. xs[f j := r j]) ?rs1 js ! a = ?rs1 ! a \<and>
      foldl (\<lambda>xs j. xs[f j := v j]) ?vals1 js ! a = ?vals1 ! a) \<and>
   (a \<in> f ` set js \<longrightarrow>
      (\<exists>k \<in> set js. foldl (\<lambda>xs j. xs[f j := r j]) ?rs1 js ! a = r k \<and>
                    foldl (\<lambda>xs j. xs[f j := v j]) ?vals1 js ! a = v k))"
    using Cons.IH [of ?rs1 ?vals1] Cons.prems by simp
  show ?case
  proof (cases "a \<in> f ` set js")
    case True
    with ih show ?thesis by auto
  next
    case False
    show ?thesis
    proof (cases "a = f j")
      case True
      with False ih Cons.prems show ?thesis by auto
    next
      case neq: False
      with False ih Cons.prems show ?thesis by auto
    qed
  qed
qed

lemma same_constants_refl: "same_constants bs bs"
  by (simp add: same_constants_def)

lemma same_constants_trans:
  "same_constants bs bs' \<Longrightarrow> same_constants bs' bs'' \<Longrightarrow> same_constants bs bs''"
  by (simp add: same_constants_def)

lemma same_constants_length: "same_constants bs bs' \<Longrightarrow> length bs = length bs'"
  unfolding same_constants_def by (rule map_eq_imp_length_eq)

lemma same_constants_nth:
  assumes "same_constants bs bs'" and "a < length bs"
  shows "is_constant (bs ! a) = is_constant (bs' ! a)"
    and "constant_value (bs ! a) = constant_value (bs' ! a)"
proof -
  from assms(1) have l: "length bs = length bs'"
    by (rule same_constants_length)
  from assms(1) have "map (\<lambda>b. (is_constant b, constant_value b)) bs ! a =
      map (\<lambda>b. (is_constant b, constant_value b)) bs' ! a"
    by (simp add: same_constants_def)
  with assms(2) l show "is_constant (bs ! a) = is_constant (bs' ! a)"
    and "constant_value (bs ! a) = constant_value (bs' ! a)"
    by simp_all
qed

lemma same_constants_users_count:
  "a < length bs \<Longrightarrow>
   same_constants (bs[a := (bs ! a)\<lparr>local_users_count := n\<rparr>]) bs"
  by (simp add: same_constants_def map_update list_update_same_conv)

lemma ignore_inputs_constants:
  "\<forall>i \<in> set js. i < length (ra_inputs c) \<and> unat (ra_inputs c ! i) < length (ra_buffers c) \<Longrightarrow>
   ignore_inputs js c = Ok c' \<Longrightarrow> same_constants (ra_buffers c') (ra_buffers c)"
proof (induction js arbitrary: c)
  case Nil
  then show ?case by (simp add: same_constants_refl)
next
  case (Cons i js)
  let ?a = "unat (ra_inputs c ! i)"
  let ?c1 = "c\<lparr>ra_buffers := (ra_buffers c)
      [?a := (ra_buffers c ! ?a)\<lparr>local_users_count := local_users_count (ra_buffers c ! ?a) - 1\<rparr>]\<rparr>"
  have first: "RA_ignore_input c i = Ok ?c1"
    using Cons.prems(1) by (simp add: RA_ignore_input_def get_input_address_def slice_at_def)
  have bounds: "\<forall>k \<in> set js. k < length (ra_inputs ?c1) \<and>
          unat (ra_inputs ?c1 ! k) < length (ra_buffers ?c1)"
    using Cons.prems(1) by simp
  from Cons.prems(2) first have "ignore_inputs js ?c1 = Ok c'"
    by simp
  from Cons.IH [OF bounds this] have "same_constants (ra_buffers c') (ra_buffers ?c1)" .
  moreover have "same_constants (ra_buffers ?c1) (ra_buffers c)"
    using Cons.prems(1) by (simp add: same_constants_users_count)
  ultimately show ?case
    by (rule same_constants_trans)
qed

lemma instruction_step:
  fixes catalog :: "nat \<Rightarrow> ('f :: ord) operation"
  assumes sound: "sound_operation (catalog (op_kind ins))"
    and arity: "length (op_inputs ins) = n_inputs (catalog (op_kind ins))"
      "length (op_outputs ins) = n_outputs (catalog (op_kind ins))"
    and reads: "\<forall>i \<in> set (op_inputs ins). unat i \<in> set defined"
    and writes: "\<forall>oa \<in> set (op_outputs ins). unat oa < length bs \<and> \<not> is_constant (bs ! unat oa)"
    and inv: "contained bs defined rs vals"
    and len: "length bsa = length bs"
  shows "\<exists>rs' bsa' vals'.
           analyze_instruction catalog ins (rs, bsa) = Ok (rs', bsa') \<and>
           execute_instruction catalog ins bs vals = Ok vals' \<and>
           same_constants bsa' bsa \<and>
           contained bs (map unat (op_outputs ins) @ defined) rs' vals'"
proof -
  let ?opn = "catalog (op_kind ins)"
  let ?ins = "op_inputs ins" and ?outs = "op_outputs ins" and ?ps = "op_params ins"
  let ?c = "\<lparr>ra_inputs = ?ins, ra_outputs = ?outs, ra_params = ?ps,
             ra_ranges = rs, ra_buffers = bsa\<rparr>"
  let ?pc = "\<lparr>pb_inputs = ?ins, pb_outputs = ?outs, pb_params = ?ps, pb_buffers = bs\<rparr>"
  let ?idx = "[0..<length ?ins]"
  let ?ivs = "map (\<lambda>i. rs ! unat (?ins ! i)) ?idx"
  let ?vs = "map (\<lambda>i. buffer_value bs vals (unat (?ins ! i))) ?idx"
  let ?f = "\<lambda>j. unat (?outs ! j)"
  let ?r = "range_fn ?opn ?ps ?ivs" and ?v = "execute_fn ?opn ?ps ?vs"
  let ?js = "[0..<length ?outs]"
  let ?rs' = "foldl (\<lambda>xs j. xs[?f j := ?r j]) rs ?js"
  let ?vals' = "foldl (\<lambda>xs j. xs[?f j := ?v j]) vals ?js"
  from inv have lrs: "length rs = length bs" and lvals: "length vals = length bs"
    and held: "\<And>a. a \<in> set defined \<Longrightarrow>
                 a < length bs \<and> interval_contains (rs ! a) (buffer_value bs vals a)"
    by (simp_all add: contained_def)
  have in_def: "\<And>i. i < length ?ins \<Longrightarrow> unat (?ins ! i) \<in> set defined"
    using reads by simp
  have ivs: "collect (RA_get_input ?c) ?idx = Ok ?ivs"
    by (rule collect_Ok) (use in_def held lrs in \<open>simp add: RA_get_input_Ok\<close>)
  have vs: "collect (read_input ?pc vals) ?idx = Ok ?vs"
    by (rule collect_Ok) (use in_def held lvals in \<open>simp add: read_input_Ok\<close>)
  have "list_all2 interval_contains ?ivs ?vs"
    using in_def held by (simp add: list_all2_conv_all_nth)
  moreover have "length ?ivs = n_inputs ?opn"
    using arity by simp
  ultimately have out_sound: "\<And>j. j < n_outputs ?opn \<Longrightarrow> interval_contains (?r j) (?v j)"
    and ign: "\<And>i. i \<in> set (ignored_fn ?opn ?ps ?ivs) \<Longrightarrow> i < n_inputs ?opn"
    using sound unfolding sound_operation_def by blast+
  have out_lt: "\<And>j. j < length ?outs \<Longrightarrow> ?f j < length bs \<and> \<not> is_constant (bs ! ?f j)"
    using writes by simp
  have set_ok: "set_outputs ?r ?js ?c = Ok (?c\<lparr>ra_ranges := ?rs'\<rparr>)"
    using set_outputs_Ok [of ?js ?c ?r] out_lt lrs by simp
  have "\<forall>i \<in> set (ignored_fn ?opn ?ps ?ivs).
          i < length (ra_inputs (?c\<lparr>ra_ranges := ?rs'\<rparr>)) \<and>
          unat (ra_inputs (?c\<lparr>ra_ranges := ?rs'\<rparr>) ! i) < length (ra_buffers (?c\<lparr>ra_ranges := ?rs'\<rparr>))"
    using ign arity in_def held len by simp
  then have ign_bounds: "\<forall>i \<in> set (ignored_fn ?opn ?ps ?ivs).
          i < length (ra_inputs (?c\<lparr>ra_ranges := ?rs'\<rparr>)) \<and>
          unat (ra_inputs (?c\<lparr>ra_ranges := ?rs'\<rparr>) ! i) < length (ra_buffers (?c\<lparr>ra_ranges := ?rs'\<rparr>))" .
  from ignore_inputs_Ok [OF ign_bounds]
  obtain c2 where ign_ok: "ignore_inputs (ignored_fn ?opn ?ps ?ivs) (?c\<lparr>ra_ranges := ?rs'\<rparr>) = Ok c2"
    and c2r: "ra_ranges c2 = ?rs'"
    by auto
  from ignore_inputs_constants [OF ign_bounds ign_ok] have c2b: "same_constants (ra_buffers c2) bsa"
    by simp
  have an: "analyze_instruction catalog ins (rs, bsa) = Ok (?rs', ra_buffers c2)"
    using ivs set_ok ign_ok c2r by (simp add: analyze_instruction_def Let_def)
  have wr_ok: "write_outputs ?v ?js ?pc vals = Ok ?vals'"
    using write_outputs_Ok [of ?js ?pc vals ?v] out_lt lvals by simp
  have ex: "execute_instruction catalog ins bs vals = Ok ?vals'"
    using vs wr_ok by (simp add: execute_instruction_def Let_def)
  have lens: "length ?rs' = length bs" "length ?vals' = length bs"
    using lrs lvals by (simp_all add: length_foldl_update)
  have bound: "\<forall>j \<in> set ?js. ?f j < length rs"
    using out_lt lrs by simp
  have same_len: "length rs = length vals"
    using lrs lvals by simp
  have outs_image: "set (map unat ?outs) = ?f ` set ?js"
  proof -
    have "map ?f ?js = map unat ?outs"
      by (rule nth_equalityI) simp_all
    then have "set (map ?f ?js) = set (map unat ?outs)"
      by (rule arg_cong)
    then show ?thesis
      by (simp only: set_map)
  qed
  have "a < length bs \<and> interval_contains (?rs' ! a) (buffer_value bs ?vals' a)"
    if a: "a \<in> set (map unat ?outs @ defined)" for a
  proof (cases "a \<in> ?f ` set ?js")
    case True
    then obtain j0 where j0: "j0 < length ?outs" "a = ?f j0"
      by auto
    with out_lt have alt: "a < length bs" and nc: "\<not> is_constant (bs ! a)"
      by simp_all
    from alt lrs have "a < length rs"
      by simp
    from foldl_updates_together [OF same_len bound this, of ?r ?v] True
    obtain j where j: "j \<in> set ?js" "?rs' ! a = ?r j" "?vals' ! a = ?v j"
      by blast
    from j(1) arity have "j < n_outputs ?opn"
      by simp
    from out_sound [OF this] j(2,3) have "interval_contains (?rs' ! a) (?vals' ! a)"
      by simp
    with nc alt show ?thesis
      by (simp add: buffer_value_def)
  next
    case False
    with a outs_image have ad: "a \<in> set defined"
      by (simp only: set_append Un_iff) blast
    with held have alt: "a < length bs"
      and c: "interval_contains (rs ! a) (buffer_value bs vals a)"
      by simp_all
    from alt lrs have "a < length rs"
      by simp
    from foldl_updates_together [OF same_len bound this, of ?r ?v] False
    have eqs: "?rs' ! a = rs ! a" "?vals' ! a = vals ! a"
      by blast+
    from eqs(2) have "buffer_value bs ?vals' a = buffer_value bs vals a"
      by (simp add: buffer_value_def)
    with alt c eqs(1) show ?thesis
      by simp
  qed
  with lens have "contained bs (map unat ?outs @ defined) ?rs' ?vals'"
    unfolding contained_def by blast
  with an ex c2b show ?thesis
    by simp
qed

lemma ops_lockstep:
  fixes catalog :: "nat \<Rightarrow> ('f :: ord) operation"
  assumes sound: "\<forall>k. sound_operation (catalog k)"
  shows "defined_after fetch catalog ops bs order defined = Some defined' \<Longrightarrow>
         contained bs defined rs vals \<Longrightarrow> same_constants bsa bs \<Longrightarrow>
         \<exists>rs' bsa' vals'.
           analyze_ops fetch catalog ops order (rs, bsa) = Ok (rs', bsa') \<and>
           execute_ops fetch catalog ops order bs vals = Ok vals' \<and>
           same_constants bsa' bs \<and>
           contained bs defined' rs' vals'"
proof (induction order arbitrary: defined rs vals bsa)
  case Nil
  then show ?case by simp
next
  case (Cons a rest)
  from Cons.prems(1) obtain ins where f: "fetch ops a = Some ins"
    by (auto split: option.splits)
  with Cons.prems(1) have
    arity: "length (op_inputs ins) = n_inputs (catalog (op_kind ins))"
      "length (op_outputs ins) = n_outputs (catalog (op_kind ins))"
    and reads: "\<forall>i \<in> set (op_inputs ins). unat i \<in> set defined"
    and writes: "\<forall>oa \<in> set (op_outputs ins). unat oa < length bs \<and> \<not> is_constant (bs ! unat oa)"
    and rest: "defined_after fetch catalog ops bs rest (map unat (op_outputs ins) @ defined)
                 = Some defined'"
    by (auto simp: list_all_iff split: if_splits)
  from sound have "sound_operation (catalog (op_kind ins))" by simp
  from instruction_step [of catalog ins defined bs rs vals bsa, OF this arity reads writes
      Cons.prems(2) same_constants_length [OF Cons.prems(3)]]
  obtain rs1 bsa1 vals1 where
    an: "analyze_instruction catalog ins (rs, bsa) = Ok (rs1, bsa1)"
    and ex: "execute_instruction catalog ins bs vals = Ok vals1"
    and s1: "same_constants bsa1 bsa"
    and c1: "contained bs (map unat (op_outputs ins) @ defined) rs1 vals1"
    by blast
  from s1 Cons.prems(3) have l1: "same_constants bsa1 bs"
    by (rule same_constants_trans)
  from Cons.IH [OF rest c1 l1] f an ex show ?case
    by simp
qed

lemma read_input_same_constants:
  assumes "same_constants bs bs'"
  shows "read_input \<lparr>pb_inputs = ins, pb_outputs = outs, pb_params = ps, pb_buffers = bs\<rparr> vals i =
         read_input \<lparr>pb_inputs = ins, pb_outputs = outs, pb_params = ps, pb_buffers = bs'\<rparr> vals i"
proof (cases "i < length ins \<and> unat (ins ! i) < length bs")
  case True
  with same_constants_nth [OF assms, of "unat (ins ! i)"] same_constants_length [OF assms]
  show ?thesis
    by (simp add: read_input_def PB_get_input_def get_input_address_def slice_at_def)
next
  case False
  with same_constants_length [OF assms] show ?thesis
    by (auto simp: read_input_def PB_get_input_def get_input_address_def slice_at_def)
qed

lemma write_outputs_same_constants:
  assumes "same_constants bs bs'"
  shows "write_outputs v js \<lparr>pb_inputs = ins, pb_outputs = outs, pb_params = ps, pb_buffers = bs\<rparr> vals =
         write_outputs v js \<lparr>pb_inputs = ins, pb_outputs = outs, pb_params = ps, pb_buffers = bs'\<rparr> vals"
proof (induction js arbitrary: vals)
  case Nil
  then show ?case by simp
next
  case (Cons j js)
  show ?case
  proof (cases "j < length outs \<and> unat (outs ! j) < length bs")
    case True
    with same_constants_nth [OF assms, of "unat (outs ! j)"] same_constants_length [OF assms]
      Cons.IH
    show ?thesis
      by (simp add: PB_get_output_def get_output_address_def slice_at_def)
  next
    case False
    with same_constants_length [OF assms] show ?thesis
      by (auto simp: PB_get_output_def get_output_address_def slice_at_def)
  qed
qed

lemma execute_instruction_same_constants:
  assumes "same_constants bs bs'"
  shows "execute_instruction catalog ins bs vals = execute_instruction catalog ins bs' vals"
proof -
  have "read_input \<lparr>pb_inputs = op_inputs ins, pb_outputs = op_outputs ins,
                    pb_params = op_params ins, pb_buffers = bs\<rparr> vals =
        read_input \<lparr>pb_inputs = op_inputs ins, pb_outputs = op_outputs ins,
                    pb_params = op_params ins, pb_buffers = bs'\<rparr> vals"
    by (rule ext) (rule read_input_same_constants [OF assms])
  then show ?thesis
    by (simp add: execute_instruction_def Let_def write_outputs_same_constants [OF assms])
qed

lemma execute_ops_same_constants:
  assumes "same_constants bs bs'"
  shows "execute_ops fetch catalog ops order bs vals = execute_ops fetch catalog ops order bs' vals"
proof (induction order arbitrary: vals)
  case Nil
  then show ?case by simp
next
  case (Cons a rest)
  have "execute_ops fetch catalog ops rest bs = execute_ops fetch catalog ops rest bs'"
    by (rule ext) (rule Cons.IH)
  then show ?case
    by (simp add: execute_instruction_same_constants [OF assms] split: option.splits)
qed

lemma generate_single_same_constants:
  assumes "same_constants (buffers st) (buffers st')"
  shows "generate_single fetch catalog p st vals position False =
         generate_single fetch catalog p st' vals position False"
proof -
  obtain pos_x pos_y pos_z where ps: "position = (pos_x, pos_y, pos_z)"
    by (cases position)
  have final: "slice_at_int (buffers st) a = Ok b \<Longrightarrow>
      \<exists>b'. slice_at_int (buffers st') a = Ok b' \<and> is_constant b' = is_constant b \<and>
           constant_value b' = constant_value b" for a b
    using same_constants_nth [OF assms, of "nat a"] same_constants_length [OF assms]
    by (auto simp: slice_at_int_def slice_at_def split: if_splits)
  have none: "slice_at_int (buffers st) a = Out_of_bounds \<Longrightarrow>
      slice_at_int (buffers st') a = Out_of_bounds" for a
    using same_constants_length [OF assms]
    by (auto simp: slice_at_int_def slice_at_def split: if_splits)
  have last: "and_then (slice_at_int (buffers st) (sdf_output_address p)) (\<lambda>b.
        and_then (if is_constant b then Ok (constant_value b)
                  else slice_at_int v4 (sdf_output_address p)) (\<lambda>out. Ok (out, v4))) =
      and_then (slice_at_int (buffers st') (sdf_output_address p)) (\<lambda>b.
        and_then (if is_constant b then Ok (constant_value b)
                  else slice_at_int v4 (sdf_output_address p)) (\<lambda>out. Ok (out, v4)))" for v4
  proof (cases "slice_at_int (buffers st) (sdf_output_address p)")
    case Crash
    then show ?thesis by (simp add: slice_at_int_def slice_at_def split: if_splits)
  next
    case Out_of_bounds
    with none show ?thesis by simp
  next
    case (Ok b)
    with final obtain b' where "slice_at_int (buffers st') (sdf_output_address p) = Ok b'"
      "is_constant b' = is_constant b" "constant_value b' = constant_value b" by blast
    with Ok show ?thesis by simp
  qed
  show ?thesis
    by (simp add: generate_single_def ps execute_ops_same_constants [OF assms] last)
qed
lemma slice_update_int_valid:
  "valid_address (length xs) a \<Longrightarrow> slice_update_int xs a v = Ok (xs[nat a := v])"
  by (simp add: slice_update_int_def valid_address_def)

lemma slice_at_int_valid:
  "valid_address (length xs) a \<Longrightarrow> slice_at_int xs a = Ok (xs ! nat a)"
  by (simp add: slice_at_int_def slice_at_def valid_address_def)

text \<open>
  C1 (on the models of \<^verbatim>\<open>analyze_range\<close> and \<^verbatim>\<open>generate_single\<close> written from the spec).
  Let every operation of the catalog have a sound range routine, let the Program and the
  State be well formed, and let the position lie in the box. Then \<^verbatim>\<open>analyze_range\<close> on
  the box and \<^verbatim>\<open>generate_single\<close> at the position (default execution order) both return,
  and the interval returned contains the value returned; \<^verbatim>\<open>generate_single\<close> returns that
  value on the State the analysis was given and on the State the analysis left.
\<close>

theorem analyze_range_sound:
  fixes catalog :: "nat \<Rightarrow> ('f :: ord) operation"
  assumes sound: "\<forall>kind. sound_operation (catalog kind)"
    and wf: "well_formed fetch catalog p st vals"
    and inside: "position_in_box to_float min_pos max_pos position"
  shows "\<exists>iv st' v vals'.
           analyze_range fetch catalog to_float p st min_pos max_pos = Ok (iv, st') \<and>
           generate_single fetch catalog p st vals position False = Ok (v, vals') \<and>
           generate_single fetch catalog p st' vals position False = Ok (v, vals') \<and>
           interval_contains iv v"
proof -
  obtain min_x min_y min_z where mn: "min_pos = (min_x, min_y, min_z)"
    by (cases min_pos)
  obtain max_x max_y max_z where mx: "max_pos = (max_x, max_y, max_z)"
    by (cases max_pos)
  obtain pos_x pos_y pos_z where ps: "position = (pos_x, pos_y, pos_z)"
    by (cases position)
  let ?bs = "buffers st"
  let ?n = "length ?bs"
  let ?x = "nat (x_input_address p)" and ?y = "nat (y_input_address p)"
    and ?z = "nat (z_input_address p)" and ?o = "nat (sdf_output_address p)"
  let ?X = "\<lparr>min_val = to_float min_x, max_val = to_float max_x\<rparr>"
  let ?Y = "\<lparr>min_val = to_float min_y, max_val = to_float max_y\<rparr>"
  let ?Z = "\<lparr>min_val = to_float min_z, max_val = to_float max_z\<rparr>"
  let ?r3 = "(ranges st)[?x := ?X, ?y := ?Y, ?z := ?Z]"
  let ?v3 = "vals[?x := pos_x, ?y := pos_y, ?z := pos_z]"
  let ?constant_addresses = "filter (\<lambda>a. is_constant (?bs ! a)) [0..<?n]"
  let ?d0 = "[?x, ?y, ?z] @ ?constant_addresses"
  from wf have lr: "length (ranges st) = ?n" and lv: "length vals = ?n"
    and vx: "valid_address ?n (x_input_address p)"
    and vy: "valid_address ?n (y_input_address p)"
    and vz: "valid_address ?n (z_input_address p)"
    and vo: "valid_address ?n (sdf_output_address p)"
    and ncx: "\<not> is_constant (?bs ! ?x)" and ncy: "\<not> is_constant (?bs ! ?y)"
    and ncz: "\<not> is_constant (?bs ! ?z)"
    and cst: "\<And>a. a < ?n \<Longrightarrow> is_constant (?bs ! a) \<Longrightarrow>
                   interval_contains (ranges st ! a) (constant_value (?bs ! a))"
    by (simp_all add: well_formed_def list_all_iff)
  from wf obtain defined where
    da: "defined_after fetch catalog (operations p) ?bs (default_execution_map p) ?d0 = Some defined"
    and od: "?o \<in> set defined"
    by (auto simp: well_formed_def split: option.splits)
  from vx vy vz have xyz: "?x < ?n" "?y < ?n" "?z < ?n"
    by (simp_all add: valid_address_def)
  from inside have box:
    "interval_contains ?X pos_x" "interval_contains ?Y pos_y" "interval_contains ?Z pos_z"
    by (simp_all add: position_in_box_def mn mx ps interval_contains_def)
  have start: "contained ?bs ?d0 ?r3 ?v3"
    unfolding contained_def
  proof (intro conjI ballI)
    show "length ?r3 = ?n" using lr by simp
    show "length ?v3 = ?n" using lv by simp
    fix a assume a: "a \<in> set ?d0"
    then show "a < ?n" using xyz by auto
    show "interval_contains (?r3 ! a) (buffer_value ?bs ?v3 a)"
    proof (cases "a = ?z")
      case True
      with xyz lr lv ncz box(3) show ?thesis by (simp add: buffer_value_def)
    next
      case nz: False
      show ?thesis
      proof (cases "a = ?y")
        case True
        with nz xyz lr lv ncy box(2) show ?thesis by (simp add: buffer_value_def)
      next
        case ny: False
        show ?thesis
        proof (cases "a = ?x")
          case True
          with nz ny xyz lr lv ncx box(1) show ?thesis by (simp add: buffer_value_def)
        next
          case nx: False
          with nz ny a have "a < ?n" "is_constant (?bs ! a)" by auto
          with cst [of a] nx ny nz show ?thesis by (simp add: buffer_value_def)
        qed
      qed
    qed
  qed
  from ops_lockstep [OF sound da start same_constants_refl]
  obtain rs' bsa' vals' where
    an: "analyze_ops fetch catalog (operations p) (default_execution_map p) (?r3, ?bs) = Ok (rs', bsa')"
    and ex: "execute_ops fetch catalog (operations p) (default_execution_map p) ?bs ?v3 = Ok vals'"
    and same: "same_constants bsa' ?bs"
    and fin: "contained ?bs defined rs' vals'"
    by blast
  from fin od have lr': "length rs' = ?n" and lv': "length vals' = ?n"
    and res: "interval_contains (rs' ! ?o) (buffer_value ?bs vals' ?o)"
    by (simp_all add: contained_def)
  have a_res: "analyze_range fetch catalog to_float p st min_pos max_pos =
      Ok (rs' ! ?o, st\<lparr>ranges := rs', buffers := bsa'\<rparr>)"
    using vx vy vz vo lr lr' an
    by (simp add: analyze_range_def mn mx slice_update_int_valid slice_at_int_valid)
  have g_res: "generate_single fetch catalog p st vals position False =
      Ok (buffer_value ?bs vals' ?o, vals')"
    using vx vy vz vo lv lv' ex
    by (simp add: generate_single_def ps slice_update_int_valid slice_at_int_valid
        buffer_value_def)
  from same have "same_constants (buffers st) (buffers (st\<lparr>ranges := rs', buffers := bsa'\<rparr>))"
    by (simp add: same_constants_def)
  from generate_single_same_constants [OF this, of fetch catalog p vals position] g_res
  have g_after: "generate_single fetch catalog p (st\<lparr>ranges := rs', buffers := bsa'\<rparr>) vals position
      False = Ok (buffer_value ?bs vals' ?o, vals')"
    by simp
  from a_res g_res g_after res show ?thesis by blast
qed

lemma add_operation_sound: "sound_operation add_operation"
  unfolding sound_operation_def
proof (intro allI impI conjI)
  fix params :: "8 word list" and ivs :: "int Interval list" and vs :: "int list" and j
  assume len: "length ivs = n_inputs add_operation"
    and all: "list_all2 interval_contains ivs vs"
  from len have l2: "length ivs = 2" by (simp add: add_operation_def)
  with all have "interval_contains (ivs ! 0) (vs ! 0)" "interval_contains (ivs ! 1) (vs ! 1)"
    by (simp_all add: list_all2_conv_all_nth)
  then show "interval_contains (range_fn add_operation params ivs j)
               (execute_fn add_operation params vs j)"
    by (simp add: add_operation_def interval_contains_def)
next
  fix params :: "8 word list" and ivs :: "int Interval list"
  show "\<forall>i \<in> set (ignored_fn add_operation params ivs). i < n_inputs add_operation"
    by (simp add: add_operation_def)
qed

lemma sum_well_formed:
  "well_formed example_fetch example_catalog sum_program sum_state [0, 0, 0, 0, 0]"
  by code_simp

theorem analyze_range_sound_witness:
  "(\<forall>kind. sound_operation (example_catalog kind)) \<and>
   well_formed example_fetch example_catalog sum_program sum_state [0, 0, 0, 0, 0] \<and>
   position_in_box (\<lambda>i. i) (0, 1, 0) (4, 3, 0) (2 :: int, 3, 0) \<and>
   and_then (analyze_range example_fetch example_catalog (\<lambda>i. i) sum_program sum_state
               (0, 1, 0) (4, 3, 0)) (\<lambda>r. Ok (fst r))
     = Ok \<lparr>min_val = 6, max_val = 12\<rparr> \<and>
   generate_single example_fetch example_catalog sum_program sum_state [0, 0, 0, 0, 0]
       (2, 3, 0) False
     = Ok (10, [2, 3, 0, 10, 0]) \<and>
   interval_contains \<lparr>min_val = 6, max_val = 12\<rparr> (10 :: int)"
proof -
  have s: "\<forall>kind. sound_operation (example_catalog kind)"
    by (simp add: example_catalog_def add_operation_sound)
  have w: "well_formed example_fetch example_catalog sum_program sum_state [0, 0, 0, 0, 0]"
    by (rule sum_well_formed)
  have b: "position_in_box (\<lambda>i. i) (0, 1, 0) (4, 3, 0) (2 :: int, 3, 0)"
    by (simp add: position_in_box_def)
  have a: "and_then (analyze_range example_fetch example_catalog (\<lambda>i. i) sum_program sum_state
               (0, 1, 0) (4, 3, 0)) (\<lambda>r. Ok (fst r))
     = Ok \<lparr>min_val = 6, max_val = 12\<rparr>"
    by code_simp
  have g: "generate_single example_fetch example_catalog sum_program sum_state [0, 0, 0, 0, 0]
       (2, 3, 0) False
     = Ok (10, [2, 3, 0, 10, 0])"
    by code_simp
  from analyze_range_sound [OF s w b] a g s w b show ?thesis
    by auto
qed

end
